theory Spec2Isabelle
  imports Complex_Main
begin

section \<open>JavaScript values used by the server\<close>

text \<open>
  A JavaScript number is modelled as an integer or \<open>NaN\<close>: every number the handlers
  compute is a sum, product or difference of integers (timestamps in milliseconds,
  counters, durations), exact in a double below \<open>2^53\<close>.  Fractions and infinities are
  outside the model.
\<close>

datatype number = Num int | NaN

text \<open>
  The \<open>duration\<close> field of a poll payload is not checked by the server, so it is any
  value a payload can carry: \<open>undefined\<close> (the field is missing), \<open>null\<close>, a boolean,
  a number, a string, or an array or object.  The server does three things with it: it
  tests its truth (\<open>||\<close>), multiplies it (\<open>*\<close>, through \<open>ToNumber\<close>) and keeps it in the
  poll.  A string is true unless it is empty, an array or object always.  The grammar
  of numeric strings and the conversion of arrays are not modelled: a string, and an
  array or object, carries the number that \<open>ToNumber\<close> gives for it (0 for the string
  \<open>"0"\<close>, for a blank string and for the empty array, \<open>NaN\<close> for \<open>"abc"\<close>), so what is
  proved for every duration holds whatever that number is.
\<close>

datatype jsval =
    JUndefined
  | JNull
  | JBool bool
  | JNumber number
  | JString string number
  | JObject number

fun truthy :: "jsval \<Rightarrow> bool" where
  "truthy JUndefined = False"
| "truthy JNull = False"
| "truthy (JBool b) = b"
| "truthy (JNumber (Num n)) = (n \<noteq> 0)"
| "truthy (JNumber NaN) = False"
| "truthy (JString str n) = (str \<noteq> [])"
| "truthy (JObject n) = True"

text \<open>\<open>a || b\<close>\<close>

definition js_or :: "jsval \<Rightarrow> jsval \<Rightarrow> jsval" where
  "js_or a b = (if truthy a then a else b)"

text \<open>The conversion \<open>ToNumber\<close> that \<open>*\<close> applies to its operands.\<close>

fun to_number :: "jsval \<Rightarrow> number" where
  "to_number JUndefined = NaN"
| "to_number JNull = Num 0"
| "to_number (JBool b) = Num (if b then 1 else 0)"
| "to_number (JNumber n) = n"
| "to_number (JString str n) = n"
| "to_number (JObject n) = n"

fun js_times :: "number \<Rightarrow> number \<Rightarrow> number" where
  "js_times (Num a) (Num b) = Num (a * b)"
| "js_times _ _ = NaN"

fun js_plus :: "number \<Rightarrow> number \<Rightarrow> number" where
  "js_plus (Num a) (Num b) = Num (a + b)"
| "js_plus _ _ = NaN"

fun js_minus :: "number \<Rightarrow> number \<Rightarrow> number" where
  "js_minus (Num a) (Num b) = Num (a - b)"
| "js_minus _ _ = NaN"

text \<open>\<open>a > b\<close>: false as soon as one side is \<open>NaN\<close>.\<close>

fun js_gt :: "number \<Rightarrow> number \<Rightarrow> bool" where
  "js_gt (Num a) (Num b) = (a > b)"
| "js_gt _ _ = False"

text \<open>\<open>Math.max(a, b)\<close>: \<open>NaN\<close> as soon as one argument is \<open>NaN\<close>.\<close>

fun js_max :: "number \<Rightarrow> number \<Rightarrow> number" where
  "js_max (Num a) (Num b) = Num (max a b)"
| "js_max _ _ = NaN"

text \<open>\<open>x++\<close> on a property that may be missing: \<open>undefined + 1\<close> is \<open>NaN\<close>.\<close>

fun js_incr :: "number option \<Rightarrow> number" where
  "js_incr (Some (Num n)) = Num (n + 1)"
| "js_incr _ = NaN"

subsection \<open>Strings\<close>

text \<open>
  A string is a list of characters with codes below 256.  \<open>String.prototype.trim\<close>
  removes white space and line terminators from both ends; below 256 these are
  TAB, LF, VT, FF, CR, SPACE and NBSP.
\<close>

definition is_space :: "char \<Rightarrow> bool" where
  "is_space c = (of_char c \<in> set [9, 10, 11, 12, 13, 32, 160 :: nat])"

definition trim :: "string \<Rightarrow> string" where
  "trim s = rev (dropWhile is_space (rev (dropWhile is_space s)))"

text \<open>The decimal digits of a counter, as a template literal \<open>${counter}\<close> prints them.\<close>

fun dec :: "nat \<Rightarrow> string" where
  "dec n = (if n < 10 then [char_of (48 + n)]
            else dec (n div 10) @ [char_of (48 + n mod 10)])"

declare dec.simps [simp del]

text \<open>The template literal \<open>${trimmedName} (${counter})\<close>\<close>

definition suffixed :: "string \<Rightarrow> nat \<Rightarrow> string" where
  "suffixed trimmedName counter = trimmedName @ '' ('' @ dec counter @ '')''"

lemma dec_nonempty: "dec n \<noteq> []"
  by (subst dec.simps) simp

lemma digit_inj: "a < 10 \<Longrightarrow> b < 10 \<Longrightarrow> (char_of (48 + a) :: char) = char_of (48 + b) \<Longrightarrow> a = (b::nat)"
proof -
  assume a: "a < 10" and b: "b < 10" and e: "(char_of (48 + a) :: char) = char_of (48 + b)"
  have "of_char (char_of (48 + a) :: char) = (of_char (char_of (48 + b) :: char) :: nat)"
    using e by simp
  then have "(48 + a) mod 256 = (48 + b) mod 256"
    by (simp only: of_char_of)
  then show "a = b" using a b by simp
qed

lemma dec_inj: "dec m = dec n \<Longrightarrow> m = n"
proof (induction m arbitrary: n rule: dec.induct)
  case (1 m)
  show ?case
  proof (cases "m < 10")
    case True
    then have dm: "dec m = [char_of (48 + m)]" by (subst dec.simps) simp
    show ?thesis
    proof (cases "n < 10")
      case True
      then have "dec n = [char_of (48 + n)]" by (subst dec.simps) simp
      with dm "1.prems" have "(char_of (48 + m) :: char) = char_of (48 + n)" by simp
      with \<open>m < 10\<close> \<open>n < 10\<close> show ?thesis by (rule digit_inj)
    next
      case False
      then have "dec n = dec (n div 10) @ [char_of (48 + n mod 10)]" by (subst dec.simps) simp
      with dm "1.prems" have "dec (n div 10) = []" by simp
      then show ?thesis using dec_nonempty by blast
    qed
  next
    case False
    then have dm: "dec m = dec (m div 10) @ [char_of (48 + m mod 10)]" by (subst dec.simps) simp
    show ?thesis
    proof (cases "n < 10")
      case True
      then have "dec n = [char_of (48 + n)]" by (subst dec.simps) simp
      with dm "1.prems" have "dec (m div 10) = []" by simp
      then show ?thesis using dec_nonempty by blast
    next
      case nf: False
      then have dn: "dec n = dec (n div 10) @ [char_of (48 + n mod 10)]" by (subst dec.simps) simp
      from dm dn "1.prems" have e1: "dec (m div 10) = dec (n div 10)"
        and e2: "(char_of (48 + m mod 10) :: char) = char_of (48 + n mod 10)" by simp_all
      from "1.IH" [OF False e1] have d: "m div 10 = n div 10" .
      have "m mod 10 = n mod 10" by (rule digit_inj [OF _ _ e2]) simp_all
      with d show ?thesis by (metis div_mult_mod_eq)
    qed
  qed
qed

lemma suffixed_inj: "suffixed t j = suffixed t k \<Longrightarrow> j = k"
  by (simp add: suffixed_def dec_inj)

lemma finite_suffixed: "finite {k. suffixed t k \<in> set E}"
proof -
  have "inj (suffixed t)" by (rule injI) (rule suffixed_inj)
  then have "finite (vimage (suffixed t) (set E))" by (intro finite_vimageI) simp_all
  then show ?thesis by (simp add: vimage_def)
qed

text \<open>
  The loop of \<open>join_student\<close> that looks for a free name:
  \<^verbatim>\<open>while (existingStudents.includes(uniqueName)) { counter++; uniqueName = ...; }\<close>
  It ends because the candidates are pairwise different and the roster is finite.
\<close>

function uniqueName_loop :: "string list \<Rightarrow> string \<Rightarrow> nat \<Rightarrow> string \<Rightarrow> string" where
  "uniqueName_loop existingStudents trimmedName counter uniqueName =
     (if uniqueName \<in> set existingStudents
      then uniqueName_loop existingStudents trimmedName (counter + 1)
             (suffixed trimmedName (counter + 1))
      else uniqueName)"
  by pat_completeness auto

termination
proof (relation "measure (\<lambda>(E, t, c, u).
         card {k. c < k \<and> suffixed t k \<in> set E} + (if u \<in> set E then 1 else 0))")
  show "wf (measure (\<lambda>(E, t, c, u).
         card {k. c < k \<and> suffixed t k \<in> set E} + (if u \<in> set E then 1 else 0)))"
    by simp
next
  fix E :: "string list" and t :: string and c :: nat and u :: string
  assume u: "u \<in> set E"
  let ?A = "{k. c < k \<and> suffixed t k \<in> set E}"
  let ?B = "{k. c + 1 < k \<and> suffixed t k \<in> set E}"
  have fin: "finite ?A" by (rule finite_subset [OF _ finite_suffixed [of t E]]) auto
  have "card ?B + (if suffixed t (c + 1) \<in> set E then 1 else 0) \<le> card ?A"
  proof (cases "suffixed t (c + 1) \<in> set E")
    case True
    then have "?A = insert (c + 1) ?B" by (auto simp: less_Suc_eq_le)
    moreover have "c + 1 \<notin> ?B" by simp
    moreover have "finite ?B" by (rule finite_subset [OF _ fin]) auto
    ultimately show ?thesis by simp
  next
    case False
    have "?B \<subseteq> ?A" by auto
    then have "card ?B \<le> card ?A" by (rule card_mono [OF fin])
    with False show ?thesis by simp
  qed
  with u show "((E, t, c + 1, suffixed t (c + 1)), (E, t, c, u)) \<in> measure (\<lambda>(E, t, c, u).
         card {k. c < k \<and> suffixed t k \<in> set E} + (if u \<in> set E then 1 else 0))"
    by simp
qed

declare uniqueName_loop.simps [simp del]

subsection \<open>Objects used as dictionaries\<close>

text \<open>
  \<open>students\<close>, \<open>pollResults\<close>, \<open>chatMessages\<close> and \<open>chatParticipants\<close> are plain
  objects used as dictionaries with string keys.  The properties of an object's own are
  an association list in insertion order, which is the order of \<open>Object.keys\<close> and
  \<open>Object.values\<close> for keys that are not array indices; a key occurs once.  Keys that
  are array indices (which JavaScript enumerates first) are outside the model.
\<close>

type_synonym 'v obj = "(string \<times> 'v) list"

text \<open>\<open>o[k]\<close>, \<open>None\<close> for \<open>undefined\<close>\<close>

fun obj_get :: "'v obj \<Rightarrow> string \<Rightarrow> 'v option" where
  "obj_get [] k = None"
| "obj_get ((k', v) # kvs) k = (if k' = k then Some v else obj_get kvs k)"

text \<open>\<open>o[k] = v\<close>: an existing key keeps its place, a new key goes last.\<close>

fun obj_set :: "'v obj \<Rightarrow> string \<Rightarrow> 'v \<Rightarrow> 'v obj" where
  "obj_set [] k v = [(k, v)]"
| "obj_set ((k', v') # kvs) k v =
     (if k' = k then (k, v) # kvs else (k', v') # obj_set kvs k v)"

text \<open>\<open>delete o[k]\<close>\<close>

fun obj_delete :: "'v obj \<Rightarrow> string \<Rightarrow> 'v obj" where
  "obj_delete [] k = []"
| "obj_delete ((k', v') # kvs) k =
     (if k' = k then kvs else (k', v') # obj_delete kvs k)"

definition obj_keys :: "'v obj \<Rightarrow> string list" where
  "obj_keys kvs = map fst kvs"

definition obj_values :: "'v obj \<Rightarrow> 'v list" where
  "obj_values kvs = map snd kvs"

text \<open>
  A plain object inherits the properties of \<open>Object.prototype\<close>: reading \<open>o[k]\<close> for
  one of these names, when \<open>o\<close> has no property \<open>k\<close> of its own, gives the inherited
  function (for \<open>__proto__\<close> the prototype itself), which is true in a test and has
  none of the array methods.  The keys of \<open>students\<close> are socket identifiers, which the
  transport generates at random and which are taken to be none of these names; session
  identifiers and poll options are chosen by the caller.
\<close>

definition proto_keys :: "string list" where
  "proto_keys =
     [''constructor'', ''__proto__'', ''hasOwnProperty'', ''isPrototypeOf'',
      ''propertyIsEnumerable'', ''toLocaleString'', ''toString'', ''valueOf'',
      ''__defineGetter__'', ''__defineSetter__'', ''__lookupGetter__'', ''__lookupSetter__'']"

datatype 'v lookup = Own 'v | Inherited | Missing

definition obj_lookup :: "'v obj \<Rightarrow> string \<Rightarrow> 'v lookup" where
  "obj_lookup m k =
     (case obj_get m k of
        Some v \<Rightarrow> Own v
      | None \<Rightarrow> if k \<in> set proto_keys then Inherited else Missing)"

text \<open>
  \<open>pollResults[k] = v\<close> for a number \<open>v\<close>: the key \<open>__proto__\<close> is the prototype's
  setter, which ignores a number, so nothing is stored; every other key is stored as a
  property of the object's own.  In \<open>pollResults[k]++\<close> a key that is not the object's
  own reads as \<open>undefined\<close> or as an inherited function or object, and each of them
  plus one is \<open>NaN\<close>, which is what \<open>js_incr\<close> gives for \<open>None\<close>.
\<close>

definition set_count :: "number obj \<Rightarrow> string \<Rightarrow> number \<Rightarrow> number obj" where
  "set_count r k v = (if k = ''__proto__'' then r else obj_set r k v)"

text \<open>\<open>xs.find(p)\<close> and \<open>xs.findIndex(p)\<close> (\<open>None\<close> for \<open>undefined\<close> and for \<open>-1\<close>)\<close>

fun find_index :: "('a \<Rightarrow> bool) \<Rightarrow> 'a list \<Rightarrow> nat option" where
  "find_index p [] = None"
| "find_index p (x # xs) =
     (if p x then Some 0 else map_option Suc (find_index p xs))"

text \<open>\<open>xs.splice(i, 1)\<close>\<close>

definition splice1 :: "nat \<Rightarrow> 'a list \<Rightarrow> 'a list" where
  "splice1 i xs = take i xs @ drop (Suc i) xs"

section \<open>The in-memory store\<close>

type_synonym socket_id = string

record student =
  name :: string
  originalName :: string
  answered :: bool
  joinedAt :: int
  tabId :: socket_id
  answer :: "string option"
  answeredAt :: "int option"

record poll =
  question :: string
  options :: "string list"
  duration :: jsval
  startTime :: int
  createdBy :: string

text \<open>An entry of \<open>pastPolls\<close>: the poll's fields spread, and four more.\<close>

record past_poll = poll +
  results :: "number obj"
  endTime :: int
  totalStudents :: nat
  answeredStudents :: nat

text \<open>A chat participant \<open>{id, name, joinedAt}\<close> and a chat message
  \<open>{id, user, message, timestamp, time}\<close>; the field names carry a prefix because
  \<open>name\<close> and \<open>joinedAt\<close> are fields of a student already.  The \<open>id\<close> of a message is
  a double, kept as the rational it is.\<close>

record chat_participant =
  cp_id :: socket_id
  cp_name :: string
  cp_joinedAt :: int

record chat_message =
  m_id :: rat
  m_user :: string
  m_message :: string
  m_timestamp :: int
  m_time :: string

text \<open>
  The module's variables.  \<open>pollTimeout\<close> is \<open>None\<close> for \<open>null\<close> and otherwise holds
  the delay the timer was armed with.
\<close>

record state =
  currentPoll :: "poll option"
  students :: "student obj"
  pollResults :: "number obj"
  pastPolls :: "past_poll list"
  pollTimeout :: "number option"
  chatMessages :: "chat_message list obj"
  chatParticipants :: "chat_participant list obj"

definition init_state :: state where
  "init_state = \<lparr> currentPoll = None, students = [], pollResults = [], pastPolls = [],
     pollTimeout = None, chatMessages = [], chatParticipants = [] \<rparr>"

section \<open>Outbound events\<close>

text \<open>
  \<open>socket.emit\<close> addresses the socket of the handler, \<open>io.emit\<close> every socket and
  \<open>io.to(r).emit\<close> the room \<open>r\<close> (a socket's own identifier names the room that
  holds this socket alone).
\<close>

datatype target = ToSocket socket_id | ToAll | ToRoom string

text \<open>
  The texts of \<open>poll_error\<close>:
  "Invalid poll data. Question and at least 2 options required." and
  "Previous poll still active. N student(s) haven't responded yet.", with its count.
\<close>

datatype poll_error_msg = Invalid_poll_data | Previous_poll_still_active nat

text \<open>
  The texts of \<open>answer_error\<close>: "No active poll", "Please join as a student first",
  "You have already answered this poll", "Invalid answer option", "Poll has expired".
\<close>

datatype answer_error_msg =
    No_active_poll
  | Please_join_first
  | Already_answered
  | Invalid_answer_option
  | Poll_has_expired

text \<open>One constructor for each event name, with the fields of its payload.\<close>

datatype event =
    Join_error
  | Join_success string string "string option"
  | New_question poll "number option"
  | Student_count_update nat
  | Poll_error poll_error_msg
  | Poll_started poll
  | Answer_error answer_error_msg
  | Answer_submitted string "number obj"
  | Live_results "number obj" nat nat
  | Poll_ended "number obj" string "string list"
  | Current_results poll "number obj" nat nat number
  | No_active_poll_event
  | Poll_ended_by_teacher
  | Kicked
  | Student_kicked string
  | Kick_error
  | Students_list "(string \<times> bool \<times> int) list"
  | Past_polls "past_poll list"
  | Server_status nat "(string \<times> string list \<times> number) option" nat
  | Chat_history "chat_message list lookup"
  | Participants_updated "chat_participant list"
  | New_message chat_message
  | User_kicked string

type_synonym emits = "(target \<times> event) list"

section \<open>The poll engine\<close>

text \<open>
  Every handler takes the socket it runs for, its payload, the value of \<open>Date.now()\<close>
  (one reading for the whole handler) and the store; it returns the store and the events
  it emitted, in order.
\<close>

text \<open>\<open>Math.max(0, currentPoll.startTime + currentPoll.duration * 1000 - Date.now())\<close>\<close>

definition timeRemaining :: "poll \<Rightarrow> int \<Rightarrow> number" where
  "timeRemaining p now =
     js_max (Num 0)
       (js_minus (js_plus (Num (startTime p)) (js_times (to_number (duration p)) (Num 1000)))
          (Num now))"

text \<open>The \<open>forEach\<close> that sets \<open>answered = false\<close> on every student.\<close>

definition reset_answered :: "student obj \<Rightarrow> student obj" where
  "reset_answered sts = map (\<lambda>(sid, st). (sid, st\<lparr>answered := False\<rparr>)) sts"

definition resetPoll :: "int \<Rightarrow> state \<Rightarrow> state" where
  "resetPoll now s =
     s\<lparr> pastPolls :=
          (case currentPoll s of
             Some p \<Rightarrow>
               pastPolls s @
                 [\<lparr> question = question p, options = options p, duration = duration p,
                    startTime = startTime p, createdBy = createdBy p,
                    results = pollResults s, endTime = now,
                    totalStudents = length (obj_keys (students s)),
                    answeredStudents = length (filter answered (obj_values (students s))) \<rparr>]
           | None \<Rightarrow> pastPolls s),
        currentPoll := None,
        pollResults := [],
        students := reset_answered (students s),
        pollTimeout := None \<rparr>"

definition endPoll :: "int \<Rightarrow> state \<Rightarrow> state \<times> emits" where
  "endPoll now s =
     (case currentPoll s of
        Some p \<Rightarrow>
          (resetPoll now s, [(ToAll, Poll_ended (pollResults s) (question p) (options p))])
      | None \<Rightarrow> (s, []))"

text \<open>\<open>join_student\<close>; \<open>nm\<close> is the handler's parameter \<open>name\<close>.\<close>

definition join_student :: "socket_id \<Rightarrow> string \<Rightarrow> int \<Rightarrow> state \<Rightarrow> state \<times> emits" where
  "join_student sid nm now s =
     (if nm = [] \<or> trim nm = [] then (s, [(ToSocket sid, Join_error)])
      else
        let trimmedName = trim nm;
            st = (case obj_get (students s) sid of
                    Some old \<Rightarrow> old\<lparr>name := trimmedName, answered := False, joinedAt := now\<rparr>
                  | None \<Rightarrow>
                      \<lparr> name = uniqueName_loop (map name (obj_values (students s)))
                                 trimmedName 1 trimmedName,
                        originalName = trimmedName, answered = False, joinedAt = now,
                        tabId = sid, answer = None, answeredAt = None \<rparr>);
            s' = s\<lparr>students := obj_set (students s) sid st\<rparr>
        in (s',
            [(ToSocket sid,
              Join_success (name st)
                (if originalName st \<noteq> [] then originalName st else name st)
                (if name st \<noteq> trimmedName
                 then Some ''Name was modified to ensure uniqueness'' else None))]
            @ (case currentPoll s' of
                 Some p \<Rightarrow> [(ToSocket sid, New_question p (Some (timeRemaining p now)))]
               | None \<Rightarrow> [])
            @ [(ToAll, Student_count_update (length (obj_keys (students s'))))]))"

text \<open>
  The payload of \<open>teacher_start_poll\<close>; \<open>None\<close> is a missing field.
\<close>

record poll_data =
  pd_question :: "string option"
  pd_options :: "string list option"
  pd_duration :: jsval

text \<open>
  \<open>!pollData.question || !pollData.options || pollData.options.length < 2\<close>: an empty
  string is falsy, an array never is.
\<close>

definition invalid_poll_data :: "poll_data \<Rightarrow> bool" where
  "invalid_poll_data pollData =
     ((case pd_question pollData of None \<Rightarrow> True | Some q \<Rightarrow> q = [])
      \<or> (case pd_options pollData of None \<Rightarrow> True | Some opts \<Rightarrow> length opts < 2))"

definition init_results :: "string list \<Rightarrow> number obj" where
  "init_results opts = fold (\<lambda>option r. set_count r option (Num 0)) opts []"

definition teacher_start_poll ::
  "socket_id \<Rightarrow> poll_data \<Rightarrow> int \<Rightarrow> state \<Rightarrow> state \<times> emits" where
  "teacher_start_poll sid pollData now s =
     (if invalid_poll_data pollData then (s, [(ToSocket sid, Poll_error Invalid_poll_data)])
      else
        let unansweredStudents =
              length (filter (\<lambda>st. \<not> answered st) (obj_values (students s)))
        in if currentPoll s \<noteq> None \<and> unansweredStudents > 0
           then (s, [(ToSocket sid, Poll_error (Previous_poll_still_active unansweredStudents))])
           else
             let s1 = resetPoll now s;
                 p = \<lparr> question = trim (case pd_question pollData of Some q \<Rightarrow> q | None \<Rightarrow> []),
                       options = map trim (case pd_options pollData of Some opts \<Rightarrow> opts | None \<Rightarrow> []),
                       duration = js_or (pd_duration pollData) (JNumber (Num 60)),
                       startTime = now, createdBy = ''teacher'' \<rparr>;
                 s2 = s1\<lparr> currentPoll := Some p,
                          pollResults := init_results (options p),
                          students := reset_answered (students s1),
                          pollTimeout := Some (js_times (to_number (duration p)) (Num 1000)) \<rparr>
             in (s2, [(ToAll, New_question p None), (ToSocket sid, Poll_started p)]))"

text \<open>
  The block of \<open>submit_answer\<close> under "Record the answer"; the handler reaches it only
  for a socket that has a student.  \<open>ans\<close> is the handler's parameter \<open>answer\<close>.
\<close>

definition record_answer :: "socket_id \<Rightarrow> string \<Rightarrow> int \<Rightarrow> state \<Rightarrow> state" where
  "record_answer sid ans now s =
     s\<lparr> students :=
          (case obj_get (students s) sid of
             Some st \<Rightarrow>
               obj_set (students s) sid
                 (st\<lparr>answered := True, answer := Some ans, answeredAt := Some now\<rparr>)
           | None \<Rightarrow> students s),
        pollResults :=
          set_count (pollResults s) ans (js_incr (obj_get (pollResults s) ans)) \<rparr>"

definition submit_answer :: "socket_id \<Rightarrow> string \<Rightarrow> int \<Rightarrow> state \<Rightarrow> state \<times> emits" where
  "submit_answer sid ans now s =
     (case currentPoll s of
        None \<Rightarrow> (s, [(ToSocket sid, Answer_error No_active_poll)])
      | Some p \<Rightarrow>
          (case obj_get (students s) sid of
             None \<Rightarrow> (s, [(ToSocket sid, Answer_error Please_join_first)])
           | Some st \<Rightarrow>
               if answered st then (s, [(ToSocket sid, Answer_error Already_answered)])
               else if ans \<notin> set (options p)
               then (s, [(ToSocket sid, Answer_error Invalid_answer_option)])
               else if js_gt (Num (now - startTime p))
                         (js_times (to_number (duration p)) (Num 1000))
               then (s, [(ToSocket sid, Answer_error Poll_has_expired)])
               else
                 let s1 = record_answer sid ans now s;
                     out = [(ToSocket sid, Answer_submitted ans (pollResults s1)),
                            (ToAll, Live_results (pollResults s1)
                                      (length (obj_keys (students s1)))
                                      (length (filter answered (obj_values (students s1)))))];
                     allAnswered = list_all answered (obj_values (students s1))
                 in if allAnswered \<and> length (obj_keys (students s1)) > 0
                    then (fst (endPoll now s1), out @ snd (endPoll now s1))
                    else (s1, out)))"

definition get_current_results :: "socket_id \<Rightarrow> int \<Rightarrow> state \<Rightarrow> state \<times> emits" where
  "get_current_results sid now s =
     (case currentPoll s of
        Some p \<Rightarrow>
          (s, [(ToSocket sid,
                Current_results p (pollResults s) (length (obj_keys (students s)))
                  (length (filter answered (obj_values (students s))))
                  (timeRemaining p now))])
      | None \<Rightarrow> (s, [(ToSocket sid, No_active_poll_event)]))"

definition teacher_end_poll :: "socket_id \<Rightarrow> int \<Rightarrow> state \<Rightarrow> state \<times> emits" where
  "teacher_end_poll sid now s =
     (case currentPoll s of
        Some p \<Rightarrow> (fst (endPoll now s), snd (endPoll now s) @ [(ToSocket sid, Poll_ended_by_teacher)])
      | None \<Rightarrow> (s, [(ToSocket sid, No_active_poll_event)]))"

text \<open>
  \<open>kick_student\<close>: the first key whose student has the name; \<open>if (studentSocketId)\<close>
  is false for an empty key as well.
\<close>

definition kick_student :: "socket_id \<Rightarrow> string \<Rightarrow> state \<Rightarrow> state \<times> emits" where
  "kick_student sid studentName s =
     (case find (\<lambda>k. case obj_get (students s) k of
                         Some st \<Rightarrow> name st = studentName | None \<Rightarrow> False)
             (obj_keys (students s)) of
        Some studentSocketId \<Rightarrow>
          if studentSocketId \<noteq> [] then
            let s' = s\<lparr>students := obj_delete (students s) studentSocketId\<rparr>
            in (s', [(ToRoom studentSocketId, Kicked),
                     (ToAll, Student_count_update (length (obj_keys (students s')))),
                     (ToSocket sid, Student_kicked studentName)])
          else (s, [(ToSocket sid, Kick_error)])
      | None \<Rightarrow> (s, [(ToSocket sid, Kick_error)]))"

definition get_students :: "socket_id \<Rightarrow> state \<Rightarrow> state \<times> emits" where
  "get_students sid s =
     (s, [(ToSocket sid,
           Students_list (map (\<lambda>st. (name st, answered st, joinedAt st))
                            (obj_values (students s))))])"

definition get_past_polls :: "socket_id \<Rightarrow> state \<Rightarrow> state \<times> emits" where
  "get_past_polls sid s = (s, [(ToSocket sid, Past_polls (pastPolls s))])"

definition get_status :: "socket_id \<Rightarrow> int \<Rightarrow> state \<Rightarrow> state \<times> emits" where
  "get_status sid now s =
     (s, [(ToSocket sid,
           Server_status (length (obj_keys (students s)))
             (case currentPoll s of
                Some p \<Rightarrow> Some (question p, options p, timeRemaining p now)
              | None \<Rightarrow> None)
             (length (pastPolls s)))])"

section \<open>The chat rooms\<close>

text \<open>The room name \<open>chat-${sessionId}\<close>\<close>

definition chat_room :: "string \<Rightarrow> string" where
  "chat_room sessionId = ''chat-'' @ sessionId"

text \<open>
  Nothing in the source catches an exception.  A chat handler throws a \<open>TypeError\<close>
  when it calls an array method on what \<open>chatMessages[sessionId]\<close> or
  \<open>chatParticipants[sessionId]\<close> gives for a session identifier that \<open>Object.prototype\<close>
  has; in each handler this happens before the first assignment and the first emit, so
  the store is then as the handler found it.  A handler gives the exception, or the
  store and the events as the poll handlers do.
\<close>

datatype js_error = TypeError

text \<open>
  \<open>join-chat\<close>: the two \<open>if (!...[sessionId])\<close> create the session's empty arrays
  when the key reads as \<open>undefined\<close>; \<open>socket.join\<close> is the transport's room membership
  and leaves the store alone; \<open>chatParticipants[sessionId].find\<close> needs an array.
\<close>

definition join_chat ::
  "socket_id \<Rightarrow> string \<Rightarrow> string \<Rightarrow> int \<Rightarrow> state \<Rightarrow> js_error + state \<times> emits" where
  "join_chat sid sessionId user now s =
     (let cm = (case obj_lookup (chatMessages s) sessionId of
                  Missing \<Rightarrow> obj_set (chatMessages s) sessionId []
                | _ \<Rightarrow> chatMessages s);
          cp = (case obj_lookup (chatParticipants s) sessionId of
                  Missing \<Rightarrow> obj_set (chatParticipants s) sessionId []
                | _ \<Rightarrow> chatParticipants s)
      in case obj_lookup cp sessionId of
           Own ps0 \<Rightarrow>
             let ps = (case find (\<lambda>p. cp_name p = user) ps0 of
                         None \<Rightarrow> ps0 @ [\<lparr> cp_id = sid, cp_name = user, cp_joinedAt = now \<rparr>]
                       | Some existingParticipant \<Rightarrow> ps0)
             in Inr (s\<lparr> chatMessages := cm, chatParticipants := obj_set cp sessionId ps \<rparr>,
                     [(ToSocket sid, Chat_history (obj_lookup cm sessionId)),
                      (ToRoom (chat_room sessionId), Participants_updated ps)])
         | _ \<Rightarrow> Inl TypeError)"

text \<open>
  \<open>send-message\<close>: \<open>mid\<close> is the double that \<open>Date.now() + Math.random()\<close> gives
  (floating-point addition is not modelled, so the sum is an input of the handler) and
  \<open>time\<close> the text \<open>toLocaleTimeString\<close> gives; \<open>chatMessages[sessionId].push\<close> needs
  an array.
\<close>

definition send_message ::
  "socket_id \<Rightarrow> string \<Rightarrow> string \<Rightarrow> string \<Rightarrow> rat \<Rightarrow> string \<Rightarrow> int \<Rightarrow> state
     \<Rightarrow> js_error + state \<times> emits" where
  "send_message sid sessionId user message mid time now s =
     (let messageObj = \<lparr> m_id = mid, m_user = user, m_message = message,
                          m_timestamp = now, m_time = time \<rparr>;
          cm = (case obj_lookup (chatMessages s) sessionId of
                  Missing \<Rightarrow> obj_set (chatMessages s) sessionId []
                | _ \<Rightarrow> chatMessages s)
      in case obj_lookup cm sessionId of
           Own msgs \<Rightarrow>
             Inr (s\<lparr> chatMessages := obj_set cm sessionId (msgs @ [messageObj]) \<rparr>,
                  [(ToRoom (chat_room sessionId), New_message messageObj)])
         | _ \<Rightarrow> Inl TypeError)"

text \<open>
  \<open>kick-user\<close> and \<open>leave-chat\<close>: \<open>if (chatParticipants[sessionId])\<close> is true for an
  inherited property too, and \<open>findIndex\<close> and \<open>filter\<close> need an array.
\<close>

definition kick_user ::
  "socket_id \<Rightarrow> string \<Rightarrow> string \<Rightarrow> state \<Rightarrow> js_error + state \<times> emits" where
  "kick_user sid sessionId userName s =
     (case obj_lookup (chatParticipants s) sessionId of
        Own ps \<Rightarrow>
          (case find_index (\<lambda>p. cp_name p = userName) ps of
             Some participantIndex \<Rightarrow>
               let participant = ps ! participantIndex;
                   ps' = splice1 participantIndex ps
               in Inr (s\<lparr> chatParticipants := obj_set (chatParticipants s) sessionId ps' \<rparr>,
                       [(ToRoom (cp_id participant), User_kicked userName),
                        (ToRoom (chat_room sessionId), Participants_updated ps')])
           | None \<Rightarrow> Inr (s, []))
      | Inherited \<Rightarrow> Inl TypeError
      | Missing \<Rightarrow> Inr (s, []))"

definition leave_chat ::
  "socket_id \<Rightarrow> string \<Rightarrow> string \<Rightarrow> state \<Rightarrow> js_error + state \<times> emits" where
  "leave_chat sid sessionId user s =
     (case obj_lookup (chatParticipants s) sessionId of
        Own ps \<Rightarrow>
          let ps' = filter (\<lambda>p. cp_id p \<noteq> sid) ps
          in Inr (s\<lparr> chatParticipants := obj_set (chatParticipants s) sessionId ps' \<rparr>,
                  [(ToRoom (chat_room sessionId), Participants_updated ps')])
      | Inherited \<Rightarrow> Inl TypeError
      | Missing \<Rightarrow> Inr (s, []))"

text \<open>
  The \<open>forEach\<close> of \<open>disconnect\<close> over the chat sessions: the first participant of the
  socket is spliced out of each session, and the session's room is told.
\<close>

fun disconnect_chat ::
  "socket_id \<Rightarrow> chat_participant list obj \<Rightarrow> chat_participant list obj \<times> emits" where
  "disconnect_chat sid [] = ([], [])"
| "disconnect_chat sid ((sessionId, ps) # rest) =
     (case find_index (\<lambda>p. cp_id p = sid) ps of
        Some participantIndex \<Rightarrow>
          ((sessionId, splice1 participantIndex ps) # fst (disconnect_chat sid rest),
           (ToRoom (chat_room sessionId), Participants_updated (splice1 participantIndex ps))
             # snd (disconnect_chat sid rest))
      | None \<Rightarrow> ((sessionId, ps) # fst (disconnect_chat sid rest), snd (disconnect_chat sid rest)))"

definition disconnect :: "socket_id \<Rightarrow> state \<Rightarrow> state \<times> emits" where
  "disconnect sid s =
     (let s1 = (case obj_get (students s) sid of
                  Some st \<Rightarrow> s\<lparr>students := obj_delete (students s) sid\<rparr>
                | None \<Rightarrow> s);
          out1 = (case obj_get (students s) sid of
                    Some st \<Rightarrow> [(ToAll, Student_count_update (length (obj_keys (students s1))))]
                  | None \<Rightarrow> [])
      in (s1\<lparr> chatParticipants := fst (disconnect_chat sid (chatParticipants s1)) \<rparr>,
          out1 @ snd (disconnect_chat sid (chatParticipants s1))))"

section \<open>The event loop\<close>

text \<open>
  What the server can be asked to do: the named events of a socket and the firing of
  the timer that \<open>teacher_start_poll\<close> armed, whose callback is \<open>endPoll\<close>.
\<close>

datatype input =
    In_join_student socket_id string
  | In_teacher_start_poll socket_id poll_data
  | In_submit_answer socket_id string
  | In_get_current_results socket_id
  | In_teacher_end_poll socket_id
  | In_kick_student socket_id string
  | In_get_students socket_id
  | In_get_past_polls socket_id
  | In_get_status socket_id
  | In_join_chat socket_id string string
  | In_send_message socket_id string string string rat string
  | In_kick_user socket_id string string
  | In_leave_chat socket_id string string
  | In_disconnect socket_id
  | In_poll_timeout

fun step :: "int \<Rightarrow> input \<Rightarrow> state \<Rightarrow> js_error + state \<times> emits" where
  "step now (In_join_student sid nm) s = Inr (join_student sid nm now s)"
| "step now (In_teacher_start_poll sid pollData) s = Inr (teacher_start_poll sid pollData now s)"
| "step now (In_submit_answer sid ans) s = Inr (submit_answer sid ans now s)"
| "step now (In_get_current_results sid) s = Inr (get_current_results sid now s)"
| "step now (In_teacher_end_poll sid) s = Inr (teacher_end_poll sid now s)"
| "step now (In_kick_student sid studentName) s = Inr (kick_student sid studentName s)"
| "step now (In_get_students sid) s = Inr (get_students sid s)"
| "step now (In_get_past_polls sid) s = Inr (get_past_polls sid s)"
| "step now (In_get_status sid) s = Inr (get_status sid now s)"
| "step now (In_join_chat sid sessionId user) s = join_chat sid sessionId user now s"
| "step now (In_send_message sid sessionId user message mid time) s =
     send_message sid sessionId user message mid time now s"
| "step now (In_kick_user sid sessionId userName) s = kick_user sid sessionId userName s"
| "step now (In_leave_chat sid sessionId user) s = leave_chat sid sessionId user s"
| "step now (In_disconnect sid) s = Inr (disconnect sid s)"
| "step now In_poll_timeout s = Inr (endPoll now s)"

text \<open>
  Events are handled one after the other, each to its end.  An exception that leaves a
  handler ends the process, and the inputs after it are never handled.  \<open>run\<close> gives
  the store the server reaches on a sequence of inputs, each with the clock's reading
  when it is handled: the store after the last input, or the store in which a handler
  threw.
\<close>

fun run :: "(int \<times> input) list \<Rightarrow> state \<Rightarrow> state" where
  "run [] s = s"
| "run ((now, i) # rest) s =
     (case step now i s of Inr (s', out) \<Rightarrow> run rest s' | Inl e \<Rightarrow> s)"

section \<open>What a caller observes\<close>

text \<open>
  A handler reports its outcome through the events it emits: \<open>submit_answer\<close> succeeded
  when it emitted \<open>answer_submitted\<close>, \<open>teacher_start_poll\<close> when it emitted
  \<open>poll_started\<close>, and a poll was completed when \<open>poll_ended\<close> went out.
\<close>

fun is_answer_submitted :: "event \<Rightarrow> bool" where
  "is_answer_submitted (Answer_submitted a r) = True"
| "is_answer_submitted _ = False"

fun is_poll_started :: "event \<Rightarrow> bool" where
  "is_poll_started (Poll_started p) = True"
| "is_poll_started _ = False"

fun is_poll_ended :: "event \<Rightarrow> bool" where
  "is_poll_ended (Poll_ended r q os) = True"
| "is_poll_ended _ = False"

definition submit_succeeds :: "socket_id \<Rightarrow> string \<Rightarrow> int \<Rightarrow> state \<Rightarrow> bool" where
  "submit_succeeds sid ans now s =
     list_ex is_answer_submitted (map snd (snd (submit_answer sid ans now s)))"

definition start_succeeds :: "socket_id \<Rightarrow> poll_data \<Rightarrow> int \<Rightarrow> state \<Rightarrow> bool" where
  "start_succeeds sid pollData now s =
     list_ex is_poll_started (map snd (snd (teacher_start_poll sid pollData now s)))"

text \<open>The number of students that have not answered, as \<open>teacher_start_poll\<close> counts it.\<close>

definition unanswered :: "state \<Rightarrow> nat" where
  "unanswered s = length (filter (\<lambda>st. \<not> answered st) (obj_values (students s)))"

text \<open>The names on the roster, as \<open>join_student\<close> collects them in \<open>existingStudents\<close>.\<close>

definition roster_names :: "state \<Rightarrow> string list" where
  "roster_names s = map name (obj_values (students s))"

text \<open>The name a \<open>join_student\<close> answers with in \<open>join_success\<close>, if it does.\<close>

fun joined_as :: "emits \<Rightarrow> string option" where
  "joined_as ((t, Join_success n orig msg) # rest) = Some n"
| "joined_as _ = None"

section \<open>Runs of the server\<close>

text \<open>
  The inputs after which a socket that has answered may answer again: its own
  \<open>join_student\<close>, which sets \<open>answered\<close> to false, and a \<open>teacher_start_poll\<close> that
  succeeds, which starts another poll.  A run has no renewal for a socket when none of
  its inputs is one of these in the state it meets.
\<close>

fun renews :: "socket_id \<Rightarrow> int \<Rightarrow> input \<Rightarrow> state \<Rightarrow> bool" where
  "renews sid now (In_join_student k nm) s = (k = sid)"
| "renews sid now (In_teacher_start_poll k pollData) s = start_succeeds k pollData now s"
| "renews sid now i s = False"

fun no_renewal :: "socket_id \<Rightarrow> (int \<times> input) list \<Rightarrow> state \<Rightarrow> bool" where
  "no_renewal sid [] s = True"
| "no_renewal sid ((now, i) # rest) s =
     (\<not> renews sid now i s
      \<and> (case step now i s of Inr (s', out) \<Rightarrow> no_renewal sid rest s' | Inl e \<Rightarrow> True))"

text \<open>
  The states in which \<open>submit_answer\<close> refuses a socket whatever the option and the
  time: no current poll, no student on the socket, or a student that has answered.
\<close>

definition may_not_submit :: "socket_id \<Rightarrow> state \<Rightarrow> bool" where
  "may_not_submit sid s =
     (currentPoll s = None
      \<or> (case obj_get (students s) sid of None \<Rightarrow> True | Some st \<Rightarrow> answered st))"

section \<open>A session, step by step\<close>

text \<open>
  The poll of the specification's scenario, two students \<open>Ann\<close> and \<open>Bob\<close> on the
  sockets \<open>a\<close> and \<open>b\<close>, and the teacher on the socket \<open>t\<close>: both join, the poll
  starts, Ann answers, Bob answers and the poll is completed.
\<close>

definition pd_color :: poll_data where
  "pd_color = \<lparr> pd_question = Some ''Color?'', pd_options = Some [''Red'', ''Blue''],
                 pd_duration = JNumber (Num 60) \<rparr>"

definition session_polling :: state where
  "session_polling =
     run [(0, In_join_student ''a'' ''Ann''), (1, In_join_student ''b'' '' Bob ''),
          (2, In_teacher_start_poll ''t'' pd_color)] init_state"

definition session_one_answered :: state where
  "session_one_answered = run [(3, In_submit_answer ''a'' ''Red'')] session_polling"

definition session_completed :: state where
  "session_completed = run [(9, In_submit_answer ''b'' ''Blue'')] session_one_answered"

text \<open>Instead, after Ann's answer: Bob's socket disconnects; or Ann joins again.\<close>

definition session_left_alone :: state where
  "session_left_alone = run [(4, In_disconnect ''b'')] session_one_answered"

definition session_rejoined :: state where
  "session_rejoined = run [(4, In_join_student ''a'' ''Ann'')] session_one_answered"

text \<open>Other payloads: a duration of zero, two options equal once trimmed, one option.\<close>

definition pd_zero_duration :: poll_data where
  "pd_zero_duration = pd_color\<lparr>pd_duration := JNumber (Num 0)\<rparr>"

text \<open>
  The duration \<open>"0"\<close>, a string, for which \<open>ToNumber\<close> gives 0; and a session in which
  Ann has joined and the teacher starts a poll with it at time 5.
\<close>

definition pd_string_zero :: poll_data where
  "pd_string_zero = pd_color\<lparr>pd_duration := JString ''0'' (Num 0)\<rparr>"

definition session_string_zero :: state where
  "session_string_zero =
     run [(0, In_join_student ''a'' ''Ann''), (5, In_teacher_start_poll ''t'' pd_string_zero)]
       init_state"

definition pd_same_options :: poll_data where
  "pd_same_options = \<lparr> pd_question = Some ''Color?'', pd_options = Some [''Red'', '' Red ''],
                        pd_duration = JUndefined \<rparr>"

definition pd_one_option :: poll_data where
  "pd_one_option = \<lparr> pd_question = Some ''Color?'', pd_options = Some [''Red''],
                      pd_duration = JUndefined \<rparr>"

text \<open>A roster with one \<open>Sam\<close>, and with a second socket that asked for \<open>Sam\<close> too.\<close>

definition session_sam :: state where
  "session_sam = run [(0, In_join_student ''b'' ''Sam'')] init_state"

definition session_sam_twice :: state where
  "session_sam_twice =
     run [(0, In_join_student ''b'' ''Sam''), (1, In_join_student ''a'' ''Sam'')] init_state"

section \<open>Basic facts\<close>

subsection \<open>Objects\<close>

lemma obj_get_set_same [simp]: "obj_get (obj_set m k v) k = Some v"
  by (induction m) auto

lemma obj_get_set_other [simp]: "k' \<noteq> k \<Longrightarrow> obj_get (obj_set m k v) k' = obj_get m k'"
  by (induction m) auto

lemma obj_set_fresh: "obj_get m k = None \<Longrightarrow> obj_set m k v = m @ [(k, v)]"
  by (induction m) (auto split: if_splits)

lemma obj_set_same_value: "obj_get m k = Some v \<Longrightarrow> obj_set m k v = m"
  by (induction m) (auto split: if_splits)

lemma obj_keys_set_present: "obj_get m k = Some v' \<Longrightarrow> obj_keys (obj_set m k v) = obj_keys m"
  by (induction m) (auto simp: obj_keys_def split: if_splits)

lemma obj_set_nonempty [simp]: "obj_set m k v \<noteq> []"
  by (cases m) (auto split: if_splits)

lemma length_obj_keys_values: "length (obj_keys m) = length (obj_values m)"
  by (simp add: obj_keys_def obj_values_def)

lemma length_filter_all: "list_all P xs \<Longrightarrow> length (filter P xs) = length xs"
  by (induction xs) auto

lemma trim_Nil [simp]: "trim [] = []"
  by (simp add: trim_def)

lemma obj_get_absent: "k \<notin> set (obj_keys m) \<Longrightarrow> obj_get m k = None"
  by (induction m) (auto simp: obj_keys_def)

lemma obj_keys_obj_set:
  "obj_keys (obj_set m k v) = (if k \<in> set (obj_keys m) then obj_keys m else obj_keys m @ [k])"
  by (induction m) (force simp: obj_keys_def)+

lemma obj_set_distinct: "distinct (obj_keys m) \<Longrightarrow> distinct (obj_keys (obj_set m k v))"
  by (simp add: obj_keys_obj_set)

lemma obj_keys_obj_delete: "obj_keys (obj_delete m k) = remove1 k (obj_keys m)"
  by (induction m) (auto simp: obj_keys_def)

lemma obj_delete_distinct: "distinct (obj_keys m) \<Longrightarrow> distinct (obj_keys (obj_delete m k))"
  by (simp add: obj_keys_obj_delete)

lemma obj_get_delete:
  "distinct (obj_keys m) \<Longrightarrow> obj_get (obj_delete m k) k' = (if k' = k then None else obj_get m k')"
proof (induction m)
  case Nil
  then show ?case by simp
next
  case (Cons a m)
  obtain k0 v0 where a: "a = (k0, v0)" by (cases a)
  from Cons.prems a have d: "distinct (obj_keys m)" and n: "k0 \<notin> set (obj_keys m)"
    by (simp_all add: obj_keys_def)
  from n have "obj_get m k0 = None" by (rule obj_get_absent)
  with a Cons.IH [OF d] show ?case by auto
qed

subsection \<open>Outcomes of the handlers\<close>

lemma start_succeeds_iff:
  "start_succeeds sid pollData now s \<longleftrightarrow>
     \<not> invalid_poll_data pollData \<and> \<not> (currentPoll s \<noteq> None \<and> 0 < unanswered s)"
  by (simp add: start_succeeds_def teacher_start_poll_def unanswered_def Let_def)

lemma submit_succeeds_iff:
  "submit_succeeds sid ans now s \<longleftrightarrow>
     (\<exists>p st. currentPoll s = Some p \<and> obj_get (students s) sid = Some st \<and> \<not> answered st
        \<and> ans \<in> set (options p)
        \<and> \<not> js_gt (Num (now - startTime p)) (js_times (to_number (duration p)) (Num 1000)))"
  by (auto simp add: submit_succeeds_def submit_answer_def Let_def split: option.splits)

lemma list_ex_unanswered: "list_ex (\<lambda>st. \<not> answered st) xs \<longleftrightarrow> 0 < length (filter (\<lambda>st. \<not> answered st) xs)"
  by (induction xs) auto

lemma list_all_answered: "list_all answered xs \<longleftrightarrow> length (filter (\<lambda>st. \<not> answered st) xs) = 0"
  by (induction xs) auto

lemma reset_answered_get:
  "obj_get (reset_answered m) k = map_option (\<lambda>st. st\<lparr>answered := False\<rparr>) (obj_get m k)"
  by (induction m) (auto simp: reset_answered_def)

lemma endPoll_fst_currentPoll [simp]: "currentPoll (fst (endPoll now s)) = None"
  by (simp add: endPoll_def resetPoll_def split: option.splits)

lemma js_or_60_truthy: "truthy (js_or v (JNumber (Num 60)))"
  by (simp add: js_or_def)

lemma start_success_poll:
  assumes "start_succeeds sid pollData now s"
  shows "currentPoll (fst (teacher_start_poll sid pollData now s)) =
           Some \<lparr> question = trim (case pd_question pollData of Some q \<Rightarrow> q | None \<Rightarrow> []),
                  options = map trim (case pd_options pollData of Some opts \<Rightarrow> opts | None \<Rightarrow> []),
                  duration = js_or (pd_duration pollData) (JNumber (Num 60)),
                  startTime = now, createdBy = ''teacher'' \<rparr>"
    and "pollTimeout (fst (teacher_start_poll sid pollData now s)) =
           Some (js_times (to_number (js_or (pd_duration pollData) (JNumber (Num 60)))) (Num 1000))"
    and "students (fst (teacher_start_poll sid pollData now s)) = reset_answered (reset_answered (students s))"
  using assms unfolding start_succeeds_iff
  by (auto simp add: teacher_start_poll_def unanswered_def Let_def resetPoll_def)

lemma start_ignores_falsy_duration:
  "\<not> truthy v \<Longrightarrow> \<not> truthy v' \<Longrightarrow>
   teacher_start_poll sid (pollData\<lparr>pd_duration := v\<rparr>) now s = teacher_start_poll sid (pollData\<lparr>pd_duration := v'\<rparr>) now s"
  by (simp add: teacher_start_poll_def invalid_poll_data_def js_or_def Let_def)

lemma resetPoll_pastPolls:
  "pastPolls (resetPoll now s) =
     (case currentPoll s of
        None \<Rightarrow> pastPolls s
      | Some p \<Rightarrow>
          pastPolls s @
            [\<lparr> question = question p, options = options p, duration = duration p,
               startTime = startTime p, createdBy = createdBy p,
               results = pollResults s, endTime = now,
               totalStudents = length (obj_keys (students s)),
               answeredStudents = length (filter answered (obj_values (students s))) \<rparr>])"
  by (simp add: resetPoll_def)

lemma start_success_pastPolls:
  assumes "start_succeeds sid pollData now s"
  shows "pastPolls (fst (teacher_start_poll sid pollData now s)) = pastPolls (resetPoll now s)"
  using assms unfolding start_succeeds_iff
  by (auto simp add: teacher_start_poll_def unanswered_def Let_def)

lemma record_answer_simps [simp]:
  "currentPoll (record_answer sid ans now s) = currentPoll s"
  "pastPolls (record_answer sid ans now s) = pastPolls s"
  "pollTimeout (record_answer sid ans now s) = pollTimeout s"
  by (simp_all add: record_answer_def)

lemma record_answer_length:
  "length (obj_keys (students (record_answer sid ans now s))) = length (obj_keys (students s))"
  by (auto simp: record_answer_def obj_keys_set_present split: option.splits)

lemma reset_answered_keys [simp]: "obj_keys (reset_answered m) = obj_keys m"
  by (induction m) (auto simp: reset_answered_def obj_keys_def)

lemma submit_success_result:
  assumes "submit_succeeds sid ans now s"
  shows "submit_answer sid ans now s =
           (let s1 = record_answer sid ans now s;
                out = [(ToSocket sid, Answer_submitted ans (pollResults s1)),
                       (ToAll, Live_results (pollResults s1) (length (obj_keys (students s1)))
                                 (length (filter answered (obj_values (students s1)))))]
            in if list_all answered (obj_values (students s1)) \<and> 0 < length (obj_keys (students s1))
               then (fst (endPoll now s1), out @ snd (endPoll now s1))
               else (s1, out))"
  using assms unfolding submit_succeeds_iff
  by (auto simp add: submit_answer_def Let_def)

lemma submit_failure_unchanged:
  "\<not> submit_succeeds sid ans now s \<Longrightarrow> fst (submit_answer sid ans now s) = s"
  unfolding submit_succeeds_iff
  by (auto simp add: submit_answer_def Let_def split: option.splits)

lemma start_failure_unchanged:
  "\<not> start_succeeds sid pollData now s \<Longrightarrow> fst (teacher_start_poll sid pollData now s) = s"
  unfolding start_succeeds_iff
  by (auto simp add: teacher_start_poll_def Let_def unanswered_def)

lemma currentPoll_join_student [simp]:
  "currentPoll (fst (join_student sid nm now s)) = currentPoll s"
  by (simp add: join_student_def Let_def)

lemma currentPoll_kick_student [simp]:
  "currentPoll (fst (kick_student sid studentName s)) = currentPoll s"
  by (simp add: kick_student_def Let_def split: option.splits)

lemma currentPoll_disconnect [simp]: "currentPoll (fst (disconnect sid s)) = currentPoll s"
  by (simp add: disconnect_def Let_def split: option.splits)

lemma join_chat_keeps_poll:
  "join_chat k sessionId user now s = Inr (s', out) \<Longrightarrow>
     currentPoll s' = currentPoll s \<and> students s' = students s \<and> pastPolls s' = pastPolls s
     \<and> pollResults s' = pollResults s \<and> pollTimeout s' = pollTimeout s
     \<and> \<not> list_ex is_poll_ended (map snd out)"
  by (auto simp add: join_chat_def Let_def split: lookup.splits option.splits)

lemma send_message_keeps_poll:
  "send_message k sessionId user message mid time now s = Inr (s', out) \<Longrightarrow>
     currentPoll s' = currentPoll s \<and> students s' = students s \<and> pastPolls s' = pastPolls s
     \<and> pollResults s' = pollResults s \<and> pollTimeout s' = pollTimeout s
     \<and> \<not> list_ex is_poll_ended (map snd out)"
  by (auto simp add: send_message_def Let_def split: lookup.splits option.splits)

lemma kick_user_keeps_poll:
  "kick_user k sessionId userName s = Inr (s', out) \<Longrightarrow>
     currentPoll s' = currentPoll s \<and> students s' = students s \<and> pastPolls s' = pastPolls s
     \<and> pollResults s' = pollResults s \<and> pollTimeout s' = pollTimeout s
     \<and> \<not> list_ex is_poll_ended (map snd out)"
  by (auto simp add: kick_user_def Let_def split: lookup.splits option.splits)

lemma leave_chat_keeps_poll:
  "leave_chat k sessionId user s = Inr (s', out) \<Longrightarrow>
     currentPoll s' = currentPoll s \<and> students s' = students s \<and> pastPolls s' = pastPolls s
     \<and> pollResults s' = pollResults s \<and> pollTimeout s' = pollTimeout s
     \<and> \<not> list_ex is_poll_ended (map snd out)"
  by (auto simp add: leave_chat_def Let_def split: lookup.splits option.splits)



lemma endPoll_completes:
  assumes "currentPoll s \<noteq> None"
  shows "list_ex is_poll_ended (map snd (snd (endPoll now s)))
       \<and> length (pastPolls (fst (endPoll now s))) = Suc (length (pastPolls s))"
  using assms by (auto simp add: endPoll_def resetPoll_pastPolls)


lemma submit_all_answered:
  assumes "submit_succeeds sid ans now s"
    and "list_all answered (obj_values (students (record_answer sid ans now s)))"
  shows "submit_answer sid ans now s =
           (fst (endPoll now (record_answer sid ans now s)),
            [(ToSocket sid, Answer_submitted ans (pollResults (record_answer sid ans now s))),
             (ToAll, Live_results (pollResults (record_answer sid ans now s))
                       (length (obj_keys (students (record_answer sid ans now s))))
                       (length (filter answered (obj_values (students (record_answer sid ans now s))))))]
            @ snd (endPoll now (record_answer sid ans now s)))"
proof -
  from assms(1) obtain st where "obj_get (students s) sid = Some st"
    unfolding submit_succeeds_iff by blast
  then have "0 < length (obj_keys (students (record_answer sid ans now s)))"
    by (simp add: record_answer_def obj_keys_def)
  with assms(2) show ?thesis
    by (simp add: submit_success_result [OF assms(1)] Let_def)
qed

subsection \<open>The chat sessions\<close>

lemma find_name_present:
  "list_ex (\<lambda>p. cp_name p = user) ps \<Longrightarrow> \<exists>q. find (\<lambda>p. cp_name p = user) ps = Some q"
  by (induction ps) auto

lemma find_name_found:
  "find (\<lambda>p. cp_name p = user) ps = Some q \<Longrightarrow> list_ex (\<lambda>p. cp_name p = user) ps"
  by (induction ps) (auto split: if_splits)

lemma obj_lookup_own: "obj_get m k = Some v \<Longrightarrow> obj_lookup m k = Own v"
  by (simp add: obj_lookup_def)

lemma obj_lookup_missing:
  "obj_get m k = None \<Longrightarrow> k \<notin> set proto_keys \<Longrightarrow> obj_lookup m k = Missing"
  by (simp add: obj_lookup_def)

lemma obj_lookup_set [simp]: "obj_lookup (obj_set m k v) k = Own v"
  by (simp add: obj_lookup_def)

lemma obj_lookup_cases:
  "k \<notin> set proto_keys \<Longrightarrow> obj_lookup m k = Missing \<and> obj_get m k = None
     \<or> (\<exists>v. obj_lookup m k = Own v \<and> obj_get m k = Some v)"
  by (cases "obj_get m k") (simp_all add: obj_lookup_def)

text \<open>
  For a session identifier that \<open>Object.prototype\<close> does not have, \<open>join-chat\<close> returns:
  it sends the joining socket the messages of the session (none for a new session) and
  the room the participants; with the name on the list already, the participants, and
  with them their sockets, stay as they are.  \<open>send-message\<close> puts its message last.
\<close>

lemma join_chat_returns:
  assumes "sessionId \<notin> set proto_keys"
  shows "\<exists>s' ps. join_chat sid sessionId user now s
            = Inr (s', [(ToSocket sid,
                         Chat_history (Own (case obj_get (chatMessages s) sessionId of
                                              Some m \<Rightarrow> m | None \<Rightarrow> []))),
                        (ToRoom (chat_room sessionId), Participants_updated ps)])
          \<and> obj_get (chatParticipants s') sessionId = Some ps
          \<and> list_ex (\<lambda>p. cp_name p = user) ps
          \<and> obj_get (chatMessages s') sessionId
              = Some (case obj_get (chatMessages s) sessionId of Some m \<Rightarrow> m | None \<Rightarrow> [])"
  using obj_lookup_cases [OF assms, of "chatMessages s"]
    obj_lookup_cases [OF assms, of "chatParticipants s"]
  by (cases "find (\<lambda>p. cp_name p = user)
               (case obj_get (chatParticipants s) sessionId of Some ps \<Rightarrow> ps | None \<Rightarrow> [])")
     (auto simp add: join_chat_def Let_def obj_lookup_own dest: find_name_found)

lemma join_chat_present:
  assumes "obj_get (chatParticipants s) sessionId = Some ps"
    and "list_ex (\<lambda>p. cp_name p = user) ps"
    and "join_chat sid sessionId user now s = Inr (s', out)"
  shows "chatParticipants s' = chatParticipants s"
proof -
  from find_name_present [OF assms(2)] obtain q where "find (\<lambda>p. cp_name p = user) ps = Some q" ..
  with assms(1,3) show ?thesis
    by (auto simp add: join_chat_def Let_def obj_lookup_own obj_set_same_value
          split: lookup.splits)
qed

lemma send_message_appends:
  assumes "sessionId \<notin> set proto_keys"
  shows "\<exists>s'. send_message sid sessionId user message mid time now s
            = Inr (s', [(ToRoom (chat_room sessionId),
                         New_message \<lparr> m_id = mid, m_user = user, m_message = message,
                                       m_timestamp = now, m_time = time \<rparr>)])
          \<and> obj_get (chatMessages s') sessionId
              = Some ((case obj_get (chatMessages s) sessionId of Some m \<Rightarrow> m | None \<Rightarrow> [])
                      @ [\<lparr> m_id = mid, m_user = user, m_message = message,
                           m_timestamp = now, m_time = time \<rparr>])"
  using obj_lookup_cases [OF assms, of "chatMessages s"]
  by (auto simp add: send_message_def Let_def obj_lookup_own)

subsection \<open>The loop for a free name\<close>

lemma uniqueName_loop_set:
  "set E = set E' \<Longrightarrow> uniqueName_loop E t c u = uniqueName_loop E' t c u"
proof (induction E t c u rule: uniqueName_loop.induct)
  case (1 E t c u)
  show ?case
  proof (cases "u \<in> set E")
    case True
    with "1.prems" have "u \<in> set E'" by simp
    with True "1.IH" [OF True "1.prems"] show ?thesis
      by (simp add: uniqueName_loop.simps [of E] uniqueName_loop.simps [of E'])
  next
    case False
    with "1.prems" have "u \<notin> set E'" by simp
    with False show ?thesis
      by (simp add: uniqueName_loop.simps [of E] uniqueName_loop.simps [of E'])
  qed
qed

lemma uniqueName_loop_free: "u \<notin> set E \<Longrightarrow> uniqueName_loop E t c u = u"
  by (simp add: uniqueName_loop.simps)

lemma uniqueName_loop_taken:
  "u \<in> set E \<Longrightarrow>
     \<exists>k>c. uniqueName_loop E t c u = suffixed t k \<and> suffixed t k \<notin> set E
          \<and> (\<forall>j. c < j \<and> j < k \<longrightarrow> suffixed t j \<in> set E)"
proof (induction E t c u rule: uniqueName_loop.induct)
  case (1 E t c u)
  have step: "uniqueName_loop E t c u = uniqueName_loop E t (c + 1) (suffixed t (c + 1))"
    using "1.prems" by (simp add: uniqueName_loop.simps [of E t c u])
  show ?case
  proof (cases "suffixed t (c + 1) \<in> set E")
    case False
    then have "uniqueName_loop E t c u = suffixed t (c + 1)"
      using step by (simp add: uniqueName_loop_free)
    with False show ?thesis by (intro exI [of _ "c + 1"]) auto
  next
    case True
    from "1.IH" [OF "1.prems" True] obtain k where k: "c + 1 < k"
      "uniqueName_loop E t (c + 1) (suffixed t (c + 1)) = suffixed t k"
      "suffixed t k \<notin> set E" "\<forall>j. c + 1 < j \<and> j < k \<longrightarrow> suffixed t j \<in> set E"
      by blast
    have "\<forall>j. c < j \<and> j < k \<longrightarrow> suffixed t j \<in> set E"
    proof (intro allI impI)
      fix j assume j: "c < j \<and> j < k"
      show "suffixed t j \<in> set E"
      proof (cases "j = c + 1")
        case True
        with \<open>suffixed t (c + 1) \<in> set E\<close> show ?thesis by simp
      next
        case False
        with j have "c + 1 < j \<and> j < k" by simp
        with k(4) show ?thesis by blast
      qed
    qed
    with k step show ?thesis by (intro exI [of _ k]) auto
  qed
qed

lemma dec_2_3: "dec 2 = ''2''" "dec 3 = ''3''"
  by code_simp+

lemma suffixed_2_3: "suffixed t 2 = t @ '' (2)''" "suffixed t 3 = t @ '' (3)''"
  by (simp_all add: suffixed_def dec_2_3)

lemma join_fresh:
  assumes "obj_get (students s) sid = None" and "trim nm \<noteq> []"
  shows "join_student sid nm now s =
           (let u = uniqueName_loop (roster_names s) (trim nm) 1 (trim nm);
                st = \<lparr> name = u, originalName = trim nm, answered = False, joinedAt = now,
                       tabId = sid, answer = None, answeredAt = None \<rparr>;
                s' = s\<lparr>students := students s @ [(sid, st)]\<rparr>
            in (s', [(ToSocket sid, Join_success u (trim nm)
                        (if u \<noteq> trim nm then Some ''Name was modified to ensure uniqueness''
                         else None))]
                    @ (case currentPoll s of
                         Some p \<Rightarrow> [(ToSocket sid, New_question p (Some (timeRemaining p now)))]
                       | None \<Rightarrow> [])
                    @ [(ToAll, Student_count_update (Suc (length (students s))))]))"
proof -
  from assms(2) have "nm \<noteq> []" by auto
  with assms show ?thesis
    by (simp add: join_student_def Let_def roster_names_def obj_set_fresh obj_keys_def)
qed

lemma join_fresh_name:
  assumes "obj_get (students s) sid = None" and "trim nm \<noteq> []"
  shows "joined_as (snd (join_student sid nm now s))
           = Some (uniqueName_loop (roster_names s) (trim nm) 1 (trim nm))"
    and "obj_get (students (fst (join_student sid nm now s))) sid
           = Some \<lparr> name = uniqueName_loop (roster_names s) (trim nm) 1 (trim nm),
                    originalName = trim nm, answered = False, joinedAt = now,
                    tabId = sid, answer = None, answeredAt = None \<rparr>"
    and "roster_names (fst (join_student sid nm now s))
           = roster_names s @ [uniqueName_loop (roster_names s) (trim nm) 1 (trim nm)]"
    and "sid' \<noteq> sid \<Longrightarrow> obj_get (students (fst (join_student sid nm now s))) sid' = obj_get (students s) sid'"
proof -
  from assms(2) have ne: "nm \<noteq> []" by auto
  show "joined_as (snd (join_student sid nm now s))
           = Some (uniqueName_loop (roster_names s) (trim nm) 1 (trim nm))"
    by (simp add: join_fresh [OF assms] Let_def)
  show "obj_get (students (fst (join_student sid nm now s))) sid
           = Some \<lparr> name = uniqueName_loop (roster_names s) (trim nm) 1 (trim nm),
                    originalName = trim nm, answered = False, joinedAt = now,
                    tabId = sid, answer = None, answeredAt = None \<rparr>"
    using assms ne by (simp add: join_student_def Let_def roster_names_def)
  show "roster_names (fst (join_student sid nm now s))
           = roster_names s @ [uniqueName_loop (roster_names s) (trim nm) 1 (trim nm)]"
    by (simp add: join_fresh [OF assms] Let_def roster_names_def obj_values_def)
  show "sid' \<noteq> sid \<Longrightarrow> obj_get (students (fst (join_student sid nm now s))) sid' = obj_get (students s) sid'"
    using assms ne by (simp add: join_student_def Let_def)
qed

subsection \<open>What each handler does to the roster\<close>

lemma students_join_student:
  "students (fst (join_student k nm now s)) = students s
   \<or> (\<exists>st. students (fst (join_student k nm now s)) = obj_set (students s) k st)"
  by (auto simp add: join_student_def Let_def)

lemma students_kick_student:
  "students (fst (kick_student k studentName s)) = students s
   \<or> (\<exists>k'. students (fst (kick_student k studentName s)) = obj_delete (students s) k')"
  by (auto simp add: kick_student_def Let_def split: option.splits)

lemma students_disconnect:
  "students (fst (disconnect k s)) = students s
   \<or> students (fst (disconnect k s)) = obj_delete (students s) k"
  by (auto simp add: disconnect_def Let_def split: option.splits)

lemma students_endPoll:
  "students (fst (endPoll now s)) = students s
   \<or> students (fst (endPoll now s)) = reset_answered (students s)"
  by (auto simp add: endPoll_def resetPoll_def split: option.splits)

lemma students_record_answer:
  "students (record_answer k ans now s) = students s
   \<or> (\<exists>st. obj_get (students s) k = Some st
         \<and> students (record_answer k ans now s)
             = obj_set (students s) k (st\<lparr>answered := True, answer := Some ans, answeredAt := Some now\<rparr>))"
  by (auto simp add: record_answer_def split: option.splits)

lemma students_start:
  "students (fst (teacher_start_poll k pollData now s)) = students s
   \<or> students (fst (teacher_start_poll k pollData now s)) = reset_answered (reset_answered (students s))"
  by (cases "start_succeeds k pollData now s")
     (simp_all add: start_success_poll(3) start_failure_unchanged)

lemma students_submit_answer:
  "students (fst (submit_answer k ans now s)) = students s
   \<or> students (fst (submit_answer k ans now s)) = students (record_answer k ans now s)
   \<or> students (fst (submit_answer k ans now s)) = reset_answered (students (record_answer k ans now s))"
proof (cases "submit_succeeds k ans now s")
  case False
  then show ?thesis by (simp add: submit_failure_unchanged)
next
  case True
  show ?thesis
    using students_endPoll [of now "record_answer k ans now s"]
    by (auto simp add: submit_success_result [OF True] Let_def)
qed

lemma chat_step_keeps_poll:
  assumes "step now i s = Inr (s', out)"
    and "(\<exists>k a b. i = In_join_chat k a b) \<or> (\<exists>k a b c d e. i = In_send_message k a b c d e)
         \<or> (\<exists>k a b. i = In_kick_user k a b) \<or> (\<exists>k a b. i = In_leave_chat k a b)"
  shows "currentPoll s' = currentPoll s \<and> students s' = students s \<and> pastPolls s' = pastPolls s
     \<and> pollResults s' = pollResults s \<and> pollTimeout s' = pollTimeout s
     \<and> \<not> list_ex is_poll_ended (map snd out)"
  using assms join_chat_keeps_poll send_message_keeps_poll kick_user_keeps_poll
    leave_chat_keeps_poll
  by (elim disjE exE) simp_all

lemma step_distinct:
  assumes "distinct (obj_keys (students s))" and st: "step now i s = Inr (s', out)"
  shows "distinct (obj_keys (students s'))"
proof (cases i)
  case (In_join_student k nm)
  with st have "s' = fst (join_student k nm now s)" by auto
  with assms(1) students_join_student [of k nm now s] show ?thesis
    by (auto simp: obj_set_distinct)
next
  case (In_teacher_start_poll k pollData)
  with st have "s' = fst (teacher_start_poll k pollData now s)" by auto
  with assms(1) students_start [of k pollData now s] show ?thesis by auto
next
  case (In_submit_answer k ans)
  with st have e: "s' = fst (submit_answer k ans now s)" by auto
  have "distinct (obj_keys (students (record_answer k ans now s)))"
    using assms(1) students_record_answer [of k ans now s] by (auto simp: obj_set_distinct)
  with e assms(1) students_submit_answer [of k ans now s] show ?thesis by auto
next
  case (In_teacher_end_poll k)
  with st have "s' = fst (teacher_end_poll k now s)" by auto
  with assms(1) students_endPoll [of now s] show ?thesis
    by (auto simp add: teacher_end_poll_def split: option.splits)
next
  case (In_kick_student k studentName)
  with st have "s' = fst (kick_student k studentName s)" by auto
  with assms(1) students_kick_student [of k studentName s] show ?thesis
    by (auto simp: obj_delete_distinct)
next
  case (In_disconnect k)
  with st have "s' = fst (disconnect k s)" by auto
  with assms(1) students_disconnect [of k s] show ?thesis
    by (auto simp: obj_delete_distinct)
next
  case In_poll_timeout
  with st have "s' = fst (endPoll now s)" by auto
  with assms(1) students_endPoll [of now s] show ?thesis by auto
next
  case (In_join_chat k a b)
  with chat_step_keeps_poll [OF st] assms(1) show ?thesis by simp
next
  case (In_send_message k a b c d e)
  with chat_step_keeps_poll [OF st] assms(1) show ?thesis by simp
next
  case (In_kick_user k a b)
  with chat_step_keeps_poll [OF st] assms(1) show ?thesis by simp
next
  case (In_leave_chat k a b)
  with chat_step_keeps_poll [OF st] assms(1) show ?thesis by simp
qed (use assms in \<open>auto simp add: get_current_results_def get_students_def get_past_polls_def
       get_status_def split: option.splits\<close>)

subsection \<open>A student that has answered cannot answer\<close>

lemma may_not_submit_fails:
  "may_not_submit sid s \<Longrightarrow> \<not> submit_succeeds sid ans now s"
  unfolding submit_succeeds_iff by (auto simp: may_not_submit_def)

lemma may_not_submit_idle: "currentPoll s = None \<Longrightarrow> may_not_submit sid s"
  by (simp add: may_not_submit_def)

lemma record_answer_other:
  "k \<noteq> sid \<Longrightarrow> obj_get (students (record_answer k ans now s)) sid = obj_get (students s) sid"
  by (simp add: record_answer_def split: option.splits)

lemma record_answer_self:
  "obj_get (students s) sid = Some st \<Longrightarrow>
   obj_get (students (record_answer sid ans now s)) sid
     = Some (st\<lparr>answered := True, answer := Some ans, answeredAt := Some now\<rparr>)"
  by (simp add: record_answer_def)

lemma submit_result_cases:
  assumes "submit_succeeds k ans now s"
  shows "fst (submit_answer k ans now s) = record_answer k ans now s
       \<or> currentPoll (fst (submit_answer k ans now s)) = None"
  by (auto simp add: submit_success_result [OF assms] Let_def)

lemma may_not_submit_after_submit:
  assumes "submit_succeeds sid ans now s"
  shows "may_not_submit sid (fst (submit_answer sid ans now s))"
proof -
  from assms obtain st where st: "obj_get (students s) sid = Some st"
    unfolding submit_succeeds_iff by blast
  from submit_result_cases [OF assms] show ?thesis
  proof
    assume "fst (submit_answer sid ans now s) = record_answer sid ans now s"
    then show ?thesis
      using record_answer_self [OF st, of ans now]
      by (simp add: may_not_submit_def split: option.splits)
  next
    assume "currentPoll (fst (submit_answer sid ans now s)) = None"
    then show ?thesis by (rule may_not_submit_idle)
  qed
qed

lemma may_not_submit_step:
  assumes d: "distinct (obj_keys (students s))"
    and m: "may_not_submit sid s"
    and r: "\<not> renews sid now i s"
    and st: "step now i s = Inr (s', out)"
  shows "may_not_submit sid s'"
proof (cases i)
  case (In_join_student k nm)
  with st have e: "s' = fst (join_student k nm now s)" by auto
  from In_join_student r have ne: "k \<noteq> sid" by simp
  have "obj_get (students (fst (join_student k nm now s))) sid = obj_get (students s) sid"
    using students_join_student [of k nm now s] ne by auto
  with m e show ?thesis
    by (simp add: may_not_submit_def)
next
  case (In_teacher_start_poll k pollData)
  with st have e: "s' = fst (teacher_start_poll k pollData now s)" by auto
  from In_teacher_start_poll r have "fst (teacher_start_poll k pollData now s) = s"
    by (simp add: start_failure_unchanged)
  with m e show ?thesis by simp
next
  case (In_submit_answer k ans)
  with st have e: "s' = fst (submit_answer k ans now s)" by auto
  show ?thesis
  proof (cases "submit_succeeds k ans now s")
    case False
    with m e show ?thesis by (simp add: submit_failure_unchanged)
  next
    case True
    with m have ne: "k \<noteq> sid" using may_not_submit_fails by blast
    from submit_result_cases [OF True] show ?thesis
    proof
      assume e1: "fst (submit_answer k ans now s) = record_answer k ans now s"
      have "may_not_submit sid (record_answer k ans now s)"
        using m record_answer_other [OF ne, of ans now s]
        by (simp add: may_not_submit_def)
      with e e1 show ?thesis by simp
    next
      assume "currentPoll (fst (submit_answer k ans now s)) = None"
      with e show ?thesis by (simp add: may_not_submit_idle)
    qed
  qed
next
  case (In_teacher_end_poll k)
  with st have e: "s' = fst (teacher_end_poll k now s)" by auto
  show ?thesis
  proof (cases "currentPoll s")
    case None
    with m e show ?thesis by (simp add: teacher_end_poll_def)
  next
    case (Some p)
    with e show ?thesis
      by (simp add: teacher_end_poll_def may_not_submit_idle)
  qed
next
  case (In_kick_student k studentName)
  with st have e: "s' = fst (kick_student k studentName s)" by auto
  from students_kick_student [of k studentName s]
  have "obj_get (students (fst (kick_student k studentName s))) sid = obj_get (students s) sid
        \<or> obj_get (students (fst (kick_student k studentName s))) sid = None"
    using obj_get_delete [OF d] by (auto split: if_splits)
  with m e show ?thesis
    by (auto simp add: may_not_submit_def split: option.splits)
next
  case (In_disconnect k)
  with st have e: "s' = fst (disconnect k s)" by auto
  from students_disconnect [of k s]
  have "obj_get (students (fst (disconnect k s))) sid = obj_get (students s) sid
        \<or> obj_get (students (fst (disconnect k s))) sid = None"
    using obj_get_delete [OF d] by (auto split: if_splits)
  with m e show ?thesis
    by (auto simp add: may_not_submit_def split: option.splits)
next
  case In_poll_timeout
  with st have "s' = fst (endPoll now s)" by auto
  then show ?thesis by (simp add: may_not_submit_idle)
next
  case (In_join_chat k a b)
  with chat_step_keeps_poll [OF st] m show ?thesis by (simp add: may_not_submit_def)
next
  case (In_send_message k a b c d e)
  with chat_step_keeps_poll [OF st] m show ?thesis by (simp add: may_not_submit_def)
next
  case (In_kick_user k a b)
  with chat_step_keeps_poll [OF st] m show ?thesis by (simp add: may_not_submit_def)
next
  case (In_leave_chat k a b)
  with chat_step_keeps_poll [OF st] m show ?thesis by (simp add: may_not_submit_def)
qed (use m st in \<open>auto simp add: get_current_results_def get_students_def get_past_polls_def
       get_status_def may_not_submit_def split: option.splits\<close>)

lemma may_not_submit_run:
  "distinct (obj_keys (students s)) \<Longrightarrow> may_not_submit sid s \<Longrightarrow> no_renewal sid inputs s
   \<Longrightarrow> may_not_submit sid (run inputs s)"
proof (induction inputs arbitrary: s)
  case Nil
  then show ?case by simp
next
  case (Cons x rest)
  obtain now i where x: "x = (now, i)" by (cases x)
  show ?case
  proof (cases "step now i s")
    case (Inl e)
    with x Cons.prems(2) show ?thesis by simp
  next
    case (Inr r)
    obtain s' out where r: "r = (s', out)" by (cases r)
    from Cons.prems x Inr r have nr: "\<not> renews sid now i s" and n: "no_renewal sid rest s'"
      by simp_all
    from Inr r have st: "step now i s = Inr (s', out)" by simp
    have d': "distinct (obj_keys (students s'))" by (rule step_distinct [OF Cons.prems(1) st])
    have m': "may_not_submit sid s'" by (rule may_not_submit_step [OF Cons.prems(1,2) nr st])
    from d' m' n have "may_not_submit sid (run rest s')" by (rule Cons.IH)
    with x Inr r show ?thesis by simp
  qed
qed

section \<open>The claims\<close>

text \<open>
  One socket answers one poll twice: Ann answers \<open>Red\<close>, sends \<open>join_student\<close> again,
  and answers \<open>Red\<close> again.  Both answers are accepted while the same poll is current,
  and the tally counts two answers for \<open>Red\<close>, with two students on the roster of whom
  Bob has not answered.
\<close>

theorem second_submit_counterexample:
  "submit_succeeds ''a'' ''Red'' 3 session_polling
   \<and> session_one_answered = fst (submit_answer ''a'' ''Red'' 3 session_polling)
   \<and> session_rejoined = fst (join_student ''a'' ''Ann'' 4 session_one_answered)
   \<and> submit_succeeds ''a'' ''Red'' 5 session_rejoined
   \<and> currentPoll session_rejoined = currentPoll session_polling
   \<and> currentPoll session_polling \<noteq> None
   \<and> pastPolls session_rejoined = []
   \<and> obj_keys (students session_rejoined) = [''a'', ''b'']
   \<and> pollResults (fst (submit_answer ''a'' ''Red'' 5 session_rejoined))
       = [(''Red'', Num 2), (''Blue'', Num 0)]"
  by code_simp

text \<open>
  C1, as the code has it.  A student whose \<open>answered\<close> is true cannot answer the
  current poll: \<open>submit_answer\<close>, with any option, answers "You have already answered
  this poll" and leaves the store as it is.  After a successful \<open>submit_answer\<close> of a
  socket, and for as long as that socket does not send \<open>join_student\<close> again and no new
  poll is started, no further \<open>submit_answer\<close> of the socket succeeds, and each leaves
  the store as it is.  (A \<open>join_student\<close> of the same socket sets \<open>answered\<close> back to
  false, and the socket can answer the same poll once more, as the session above
  shows.)
\<close>

theorem one_submit_until_rejoin:
  assumes "distinct (obj_keys (students s))"
    and "submit_succeeds sid ans now s"
    and "no_renewal sid inputs (fst (submit_answer sid ans now s))"
  shows "\<not> submit_succeeds sid ans' now' (run inputs (fst (submit_answer sid ans now s)))
       \<and> fst (submit_answer sid ans' now' (run inputs (fst (submit_answer sid ans now s))))
           = run inputs (fst (submit_answer sid ans now s))
       \<and> (currentPoll s' = Some p \<and> obj_get (students s') sid = Some st \<and> answered st \<longrightarrow>
            submit_answer sid ans' now' s' = (s', [(ToSocket sid, Answer_error Already_answered)]))"
proof -
  let ?s1 = "fst (submit_answer sid ans now s)"
  have "step now (In_submit_answer sid ans) s = Inr (?s1, snd (submit_answer sid ans now s))"
    by simp
  then have d1: "distinct (obj_keys (students ?s1))"
    by (rule step_distinct [OF assms(1)])
  have "may_not_submit sid (run inputs ?s1)"
    using d1 may_not_submit_after_submit [OF assms(2)] assms(3) by (rule may_not_submit_run)
  then have a: "\<not> submit_succeeds sid ans' now' (run inputs ?s1)"
    by (rule may_not_submit_fails)
  then have b: "fst (submit_answer sid ans' now' (run inputs ?s1)) = run inputs ?s1"
    by (rule submit_failure_unchanged)
  have c: "submit_answer sid ans' now' s' = (s', [(ToSocket sid, Answer_error Already_answered)])"
    if "currentPoll s' = Some p \<and> obj_get (students s') sid = Some st \<and> answered st"
    using that by (simp add: submit_answer_def)
  from a b c show ?thesis by blast
qed

theorem one_submit_until_rejoin_witness:
  "distinct (obj_keys (students session_polling))
   \<and> submit_succeeds ''a'' ''Red'' 3 session_polling
   \<and> no_renewal ''a'' [(4, In_join_student ''c'' ''Ann''), (5, In_get_status ''t'')]
        (fst (submit_answer ''a'' ''Red'' 3 session_polling))
   \<and> \<not> submit_succeeds ''a'' ''Blue'' 6
         (run [(4, In_join_student ''c'' ''Ann''), (5, In_get_status ''t'')]
            (fst (submit_answer ''a'' ''Red'' 3 session_polling)))
   \<and> map_option answered (obj_get (students session_one_answered) ''a'') = Some True
   \<and> submit_answer ''a'' ''Blue'' 6 session_one_answered
       = (session_one_answered, [(ToSocket ''a'', Answer_error Already_answered)])"
proof -
  have h1: "distinct (obj_keys (students session_polling))" by code_simp
  have h2: "submit_succeeds ''a'' ''Red'' 3 session_polling" by code_simp
  have h3: "no_renewal ''a'' [(4, In_join_student ''c'' ''Ann''), (5, In_get_status ''t'')]
        (fst (submit_answer ''a'' ''Red'' 3 session_polling))"
    by code_simp
  have g1: "currentPoll session_one_answered
              = Some \<lparr> question = ''Color?'', options = [''Red'', ''Blue''],
                       duration = JNumber (Num 60), startTime = 2, createdBy = ''teacher'' \<rparr>"
    by code_simp
  have g2: "obj_get (students session_one_answered) ''a''
              = Some \<lparr> name = ''Ann'', originalName = ''Ann'', answered = True, joinedAt = 0,
                       tabId = ''a'', answer = Some ''Red'', answeredAt = Some 3 \<rparr>"
    by code_simp
  note t = one_submit_until_rejoin [OF h1 h2 h3, where ans' = "''Blue''" and now' = 6
      and s' = session_one_answered
      and p = "\<lparr> question = ''Color?'', options = [''Red'', ''Blue''],
                 duration = JNumber (Num 60), startTime = 2, createdBy = ''teacher'' \<rparr>"
      and st = "\<lparr> name = ''Ann'', originalName = ''Ann'', answered = True, joinedAt = 0,
                  tabId = ''a'', answer = Some ''Red'', answeredAt = Some 3 \<rparr>"]
  from t have a: "\<not> submit_succeeds ''a'' ''Blue'' 6
         (run [(4, In_join_student ''c'' ''Ann''), (5, In_get_status ''t'')]
            (fst (submit_answer ''a'' ''Red'' 3 session_polling)))"
    by blast
  from t g1 g2 have b: "submit_answer ''a'' ''Blue'' 6 session_one_answered
       = (session_one_answered, [(ToSocket ''a'', Answer_error Already_answered)])"
    by simp
  from g2 have c: "map_option answered (obj_get (students session_one_answered) ''a'') = Some True"
    by simp
  from h1 h2 h3 a b c show ?thesis by blast
qed

text \<open>
  A payload whose two options are equal once trimmed starts a poll, with the option
  twice in the poll.
\<close>

theorem start_same_options_counterexample:
  "length (remdups (map trim [''Red'', '' Red ''])) < 2
   \<and> pd_options pd_same_options = Some [''Red'', '' Red '']
   \<and> start_succeeds ''t'' pd_same_options 0 init_state
   \<and> map_option options (currentPoll (fst (teacher_start_poll ''t'' pd_same_options 0 init_state)))
       = Some [''Red'', ''Red'']"
  by code_simp

text \<open>
  C2, as the code has it.  \<open>teacher_start_poll\<close> answers the validation error
  exactly when the question is missing or empty, or the options are missing, or there
  are fewer than two option entries, counted as they arrive (before trimming, equal
  entries included); the store is then unchanged.  Every payload with a non-empty
  question and at least two distinct trimmed options passes the validation.  (The
  handler does not look for equal options, as the payload above shows.)
\<close>

theorem start_validation:
  "(snd (teacher_start_poll sid pollData now s) = [(ToSocket sid, Poll_error Invalid_poll_data)]
      \<longleftrightarrow> (case pd_question pollData of None \<Rightarrow> True | Some q \<Rightarrow> q = [])
          \<or> (case pd_options pollData of None \<Rightarrow> True | Some opts \<Rightarrow> length opts < 2))
   \<and> (snd (teacher_start_poll sid pollData now s) = [(ToSocket sid, Poll_error Invalid_poll_data)]
      \<longrightarrow> fst (teacher_start_poll sid pollData now s) = s)
   \<and> (pd_question pollData = Some q \<and> q \<noteq> [] \<and> pd_options pollData = Some opts
       \<and> 2 \<le> length (remdups (map trim opts))
      \<longrightarrow> snd (teacher_start_poll sid pollData now s)
            \<noteq> [(ToSocket sid, Poll_error Invalid_poll_data)])"
proof -
  have iff: "snd (teacher_start_poll sid pollData now s) = [(ToSocket sid, Poll_error Invalid_poll_data)]
      \<longleftrightarrow> invalid_poll_data pollData"
    by (simp add: teacher_start_poll_def Let_def)
  have unchanged: "invalid_poll_data pollData \<Longrightarrow> fst (teacher_start_poll sid pollData now s) = s"
    by (simp add: teacher_start_poll_def)
  have enough: "\<not> invalid_poll_data pollData"
    if "pd_question pollData = Some q \<and> q \<noteq> [] \<and> pd_options pollData = Some opts
       \<and> 2 \<le> length (remdups (map trim opts))"
  proof -
    have "length (remdups (map trim opts)) \<le> length opts"
      using length_remdups_leq [of "map trim opts"] by simp
    with that show ?thesis by (simp add: invalid_poll_data_def)
  qed
  show ?thesis
    using iff unchanged enough by (auto simp: invalid_poll_data_def)
qed

theorem start_validation_witness:
  "teacher_start_poll ''t'' pd_one_option 0 session_polling
     = (session_polling, [(ToSocket ''t'', Poll_error Invalid_poll_data)])
   \<and> pd_question pd_color = Some ''Color?'' \<and> pd_options pd_color = Some [''Red'', ''Blue'']
   \<and> 2 \<le> length (remdups (map trim [''Red'', ''Blue'']))
   \<and> snd (teacher_start_poll ''t'' pd_color 0 session_polling)
       \<noteq> [(ToSocket ''t'', Poll_error Invalid_poll_data)]"
proof -
  have a: "pd_question pd_one_option = Some ''Color?''" "pd_options pd_one_option = Some [''Red'']"
    by code_simp+
  have b: "pd_question pd_color = Some ''Color?''" "pd_options pd_color = Some [''Red'', ''Blue'']"
    by code_simp+
  have c: "2 \<le> length (remdups (map trim [''Red'', ''Blue'']))" by code_simp
  from start_validation [where sid = "''t''" and pollData = pd_one_option and now = 0
      and s = session_polling] a
  have r1: "teacher_start_poll ''t'' pd_one_option 0 session_polling
     = (session_polling, [(ToSocket ''t'', Poll_error Invalid_poll_data)])"
    by (simp add: prod_eq_iff)
  from start_validation [where sid = "''t''" and pollData = pd_color and now = 0
      and s = session_polling and q = "''Color?''" and opts = "[''Red'', ''Blue'']"] b c
  have r2: "snd (teacher_start_poll ''t'' pd_color 0 session_polling)
       \<noteq> [(ToSocket ''t'', Poll_error Invalid_poll_data)]"
    by simp
  from r1 r2 b c show ?thesis by simp
qed

text \<open>
  C3.  For a payload that passes the validation: with a current poll and a student
  that has not answered, \<open>teacher_start_poll\<close> answers \<open>poll_error\<close> with the number
  of students that have not answered, and the store stays as it was; with no current
  poll, or with every student answered, it succeeds, and a poll that was current is
  appended to \<open>pastPolls\<close> (by \<open>resetPoll\<close>) before the new poll is set.
\<close>

theorem start_conflict_or_archive:
  assumes "\<not> invalid_poll_data pollData"
  shows "(currentPoll s \<noteq> None \<and> list_ex (\<lambda>st. \<not> answered st) (obj_values (students s)) \<longrightarrow>
            0 < unanswered s
          \<and> teacher_start_poll sid pollData now s
              = (s, [(ToSocket sid, Poll_error (Previous_poll_still_active (unanswered s)))]))
       \<and> (currentPoll s = None \<or> list_all answered (obj_values (students s)) \<longrightarrow>
            start_succeeds sid pollData now s
          \<and> currentPoll (fst (teacher_start_poll sid pollData now s)) =
              Some \<lparr> question = trim (case pd_question pollData of Some q \<Rightarrow> q | None \<Rightarrow> []),
                     options = map trim (case pd_options pollData of Some opts \<Rightarrow> opts | None \<Rightarrow> []),
                     duration = js_or (pd_duration pollData) (JNumber (Num 60)),
                     startTime = now, createdBy = ''teacher'' \<rparr>
          \<and> pastPolls (fst (teacher_start_poll sid pollData now s)) =
              (case currentPoll s of
                 None \<Rightarrow> pastPolls s
               | Some p \<Rightarrow>
                   pastPolls s @
                     [\<lparr> question = question p, options = options p, duration = duration p,
                        startTime = startTime p, createdBy = createdBy p,
                        results = pollResults s, endTime = now,
                        totalStudents = length (obj_keys (students s)),
                        answeredStudents = length (filter answered (obj_values (students s))) \<rparr>]))"
proof (intro conjI impI)
  assume a: "currentPoll s \<noteq> None \<and> list_ex (\<lambda>st. \<not> answered st) (obj_values (students s))"
  then show "0 < unanswered s" by (simp add: unanswered_def list_ex_unanswered)
  with a assms show "teacher_start_poll sid pollData now s
              = (s, [(ToSocket sid, Poll_error (Previous_poll_still_active (unanswered s)))])"
    by (simp add: teacher_start_poll_def unanswered_def Let_def)
next
  assume "currentPoll s = None \<or> list_all answered (obj_values (students s))"
  then have "\<not> (currentPoll s \<noteq> None \<and> 0 < unanswered s)"
    by (auto simp: unanswered_def list_all_answered)
  with assms have ok: "start_succeeds sid pollData now s" by (simp add: start_succeeds_iff)
  then show "start_succeeds sid pollData now s" .
  from ok show "currentPoll (fst (teacher_start_poll sid pollData now s)) =
              Some \<lparr> question = trim (case pd_question pollData of Some q \<Rightarrow> q | None \<Rightarrow> []),
                     options = map trim (case pd_options pollData of Some opts \<Rightarrow> opts | None \<Rightarrow> []),
                     duration = js_or (pd_duration pollData) (JNumber (Num 60)),
                     startTime = now, createdBy = ''teacher'' \<rparr>"
    by (rule start_success_poll(1))
  from ok show "pastPolls (fst (teacher_start_poll sid pollData now s)) =
              (case currentPoll s of
                 None \<Rightarrow> pastPolls s
               | Some p \<Rightarrow>
                   pastPolls s @
                     [\<lparr> question = question p, options = options p, duration = duration p,
                        startTime = startTime p, createdBy = createdBy p,
                        results = pollResults s, endTime = now,
                        totalStudents = length (obj_keys (students s)),
                        answeredStudents = length (filter answered (obj_values (students s))) \<rparr>])"
    by (simp add: start_success_pastPolls resetPoll_pastPolls)
qed

theorem start_conflict_or_archive_witness:
  "\<not> invalid_poll_data pd_color
   \<and> currentPoll session_polling \<noteq> None
   \<and> list_ex (\<lambda>st. \<not> answered st) (obj_values (students session_polling))
   \<and> teacher_start_poll ''t'' pd_color 7 session_polling
       = (session_polling, [(ToSocket ''t'', Poll_error (Previous_poll_still_active 2))])
   \<and> list_all answered (obj_values (students session_left_alone))
   \<and> start_succeeds ''t'' pd_color 7 session_left_alone
   \<and> length (pastPolls (fst (teacher_start_poll ''t'' pd_color 7 session_left_alone))) = 1"
proof -
  have h: "\<not> invalid_poll_data pd_color" by code_simp
  have a1: "currentPoll session_polling \<noteq> None" by code_simp
  have a2: "list_ex (\<lambda>st. \<not> answered st) (obj_values (students session_polling))" by code_simp
  have u: "unanswered session_polling = 2" by code_simp
  have b1: "list_all answered (obj_values (students session_left_alone))" by code_simp
  have b2: "currentPoll session_left_alone \<noteq> None" by code_simp
  have b3: "pastPolls session_left_alone = []" by code_simp
  from start_conflict_or_archive [OF h, of session_polling "''t''" 7] a1 a2 u
  have c1: "teacher_start_poll ''t'' pd_color 7 session_polling
       = (session_polling, [(ToSocket ''t'', Poll_error (Previous_poll_still_active 2))])"
    by simp
  from start_conflict_or_archive [OF h, of session_left_alone "''t''" 7] b1 b2 b3
  have c2: "start_succeeds ''t'' pd_color 7 session_left_alone
     \<and> length (pastPolls (fst (teacher_start_poll ''t'' pd_color 7 session_left_alone))) = 1"
    by auto
  from h a1 a2 c1 b1 c2 show ?thesis by simp
qed

text \<open>
  C4.  When \<open>submit_answer\<close> succeeds and, with the answer recorded, every student
  has answered (there is at least one: the sender), the poll is completed in the same
  handler.  The handler emits exactly \<open>answer_submitted\<close> to the sender, \<open>live_results\<close>
  to all with as many answered as there are students, and \<open>poll_ended\<close> to all with the
  tally, the question and the options; the current poll and the timer are gone,
  \<open>get_status\<close> then reports no active poll and one more past poll, and \<open>pastPolls\<close> has
  grown by exactly one record, the poll with the tally, whose \<open>answeredStudents\<close> and
  \<open>totalStudents\<close> are both the number of students.
\<close>

theorem last_submit_completes_poll:
  assumes "currentPoll s = Some p"
    and "submit_succeeds sid ans now s"
    and "list_all answered (obj_values (students (record_answer sid ans now s)))"
  shows "snd (submit_answer sid ans now s)
           = [(ToSocket sid,
               Answer_submitted ans
                 (set_count (pollResults s) ans (js_incr (obj_get (pollResults s) ans)))),
              (ToAll,
               Live_results
                 (set_count (pollResults s) ans (js_incr (obj_get (pollResults s) ans)))
                 (length (obj_keys (students s))) (length (obj_keys (students s)))),
              (ToAll,
               Poll_ended
                 (set_count (pollResults s) ans (js_incr (obj_get (pollResults s) ans)))
                 (question p) (options p))]
       \<and> currentPoll (fst (submit_answer sid ans now s)) = None
       \<and> pollTimeout (fst (submit_answer sid ans now s)) = None
       \<and> pollResults (fst (submit_answer sid ans now s)) = []
       \<and> get_status sid' t (fst (submit_answer sid ans now s))
           = (fst (submit_answer sid ans now s),
              [(ToSocket sid', Server_status (length (obj_keys (students s))) None
                                 (Suc (length (pastPolls s))))])
       \<and> pastPolls (fst (submit_answer sid ans now s))
           = pastPolls s @
               [\<lparr> question = question p, options = options p, duration = duration p,
                  startTime = startTime p, createdBy = createdBy p,
                  results = set_count (pollResults s) ans (js_incr (obj_get (pollResults s) ans)),
                  endTime = now,
                  totalStudents = length (obj_keys (students s)),
                  answeredStudents = length (obj_keys (students s)) \<rparr>]
       \<and> 0 < length (obj_keys (students s))"
proof -
  let ?s1 = "record_answer sid ans now s"
  let ?r = "set_count (pollResults s) ans (js_incr (obj_get (pollResults s) ans))"
  from assms(2) obtain st where st: "obj_get (students s) sid = Some st"
    unfolding submit_succeeds_iff by blast
  have r1: "pollResults ?s1 = ?r" by (simp add: record_answer_def)
  have ne: "0 < length (obj_keys (students s))"
    using st by (cases "students s") (simp_all add: obj_keys_def)
  have cnt: "length (filter answered (obj_values (students ?s1))) = length (obj_keys (students s))"
    using length_filter_all [OF assms(3)]
    by (simp add: length_obj_keys_values [symmetric] record_answer_length)
  have cp1: "currentPoll ?s1 = Some p" using assms(1) by simp
  have e: "endPoll now ?s1 = (resetPoll now ?s1, [(ToAll, Poll_ended ?r (question p) (options p))])"
    using cp1 r1 by (simp add: endPoll_def)
  have res: "submit_answer sid ans now s =
               (resetPoll now ?s1,
                [(ToSocket sid, Answer_submitted ans ?r),
                 (ToAll, Live_results ?r (length (obj_keys (students s)))
                           (length (obj_keys (students s)))),
                 (ToAll, Poll_ended ?r (question p) (options p))])"
    using submit_all_answered [OF assms(2,3)] e r1 cnt by (simp add: record_answer_length)
  have pp: "pastPolls (resetPoll now ?s1) =
              pastPolls s @
                [\<lparr> question = question p, options = options p, duration = duration p,
                   startTime = startTime p, createdBy = createdBy p,
                   results = ?r, endTime = now,
                   totalStudents = length (obj_keys (students s)),
                   answeredStudents = length (obj_keys (students s)) \<rparr>]"
    using r1 by (simp add: resetPoll_pastPolls assms(1) cnt record_answer_length)
  have rs: "currentPoll (resetPoll now ?s1) = None" "pollTimeout (resetPoll now ?s1) = None"
    "pollResults (resetPoll now ?s1) = []"
    "length (obj_keys (students (resetPoll now ?s1))) = length (obj_keys (students s))"
    by (simp_all add: resetPoll_def record_answer_length)
  have gs: "get_status sid' t (resetPoll now ?s1)
           = (resetPoll now ?s1,
              [(ToSocket sid', Server_status (length (obj_keys (students s))) None
                                 (Suc (length (pastPolls s))))])"
    by (simp add: get_status_def rs pp)
  show ?thesis
    unfolding res fst_conv snd_conv using pp rs gs ne by simp
qed

theorem last_submit_completes_poll_witness:
  "currentPoll session_one_answered
     = Some \<lparr> question = ''Color?'', options = [''Red'', ''Blue''],
              duration = JNumber (Num 60), startTime = 2, createdBy = ''teacher'' \<rparr>
   \<and> submit_succeeds ''b'' ''Blue'' 9 session_one_answered
   \<and> list_all answered (obj_values (students (record_answer ''b'' ''Blue'' 9 session_one_answered)))
   \<and> snd (submit_answer ''b'' ''Blue'' 9 session_one_answered)
       = [(ToSocket ''b'', Answer_submitted ''Blue'' [(''Red'', Num 1), (''Blue'', Num 1)]),
          (ToAll, Live_results [(''Red'', Num 1), (''Blue'', Num 1)] 2 2),
          (ToAll, Poll_ended [(''Red'', Num 1), (''Blue'', Num 1)] ''Color?'' [''Red'', ''Blue''])]
   \<and> currentPoll (fst (submit_answer ''b'' ''Blue'' 9 session_one_answered)) = None
   \<and> pastPolls (fst (submit_answer ''b'' ''Blue'' 9 session_one_answered))
       = [\<lparr> question = ''Color?'', options = [''Red'', ''Blue''], duration = JNumber (Num 60),
            startTime = 2, createdBy = ''teacher'',
            results = [(''Red'', Num 1), (''Blue'', Num 1)], endTime = 9,
            totalStudents = 2, answeredStudents = 2 \<rparr>]"
proof -
  have h0: "currentPoll session_one_answered
     = Some \<lparr> question = ''Color?'', options = [''Red'', ''Blue''],
              duration = JNumber (Num 60), startTime = 2, createdBy = ''teacher'' \<rparr>"
    by code_simp
  have h1: "submit_succeeds ''b'' ''Blue'' 9 session_one_answered" by code_simp
  have h2: "list_all answered
              (obj_values (students (record_answer ''b'' ''Blue'' 9 session_one_answered)))"
    by code_simp
  have e1: "pastPolls session_one_answered = []" by code_simp
  have e2: "length (obj_keys (students session_one_answered)) = 2" by code_simp
  have e3: "set_count (pollResults session_one_answered) ''Blue''
              (js_incr (obj_get (pollResults session_one_answered) ''Blue''))
            = [(''Red'', Num 1), (''Blue'', Num 1)]"
    by code_simp
  note t = last_submit_completes_poll [OF h0 h1 h2, unfolded e1 e2 e3]
  from t have a: "snd (submit_answer ''b'' ''Blue'' 9 session_one_answered)
       = [(ToSocket ''b'', Answer_submitted ''Blue'' [(''Red'', Num 1), (''Blue'', Num 1)]),
          (ToAll, Live_results [(''Red'', Num 1), (''Blue'', Num 1)] 2 2),
          (ToAll, Poll_ended [(''Red'', Num 1), (''Blue'', Num 1)] ''Color?'' [''Red'', ''Blue''])]"
    by simp
  from t have b: "currentPoll (fst (submit_answer ''b'' ''Blue'' 9 session_one_answered)) = None"
    by blast
  from t have c: "pastPolls (fst (submit_answer ''b'' ''Blue'' 9 session_one_answered))
       = [\<lparr> question = ''Color?'', options = [''Red'', ''Blue''], duration = JNumber (Num 60),
            startTime = 2, createdBy = ''teacher'',
            results = [(''Red'', Num 1), (''Blue'', Num 1)], endTime = 9,
            totalStudents = 2, answeredStudents = 2 \<rparr>]"
    by simp
  from h0 h1 h2 a b c show ?thesis by blast
qed




text \<open>
  C6.  A socket without a student joins with a name whose trimmed form is on the
  roster: the name it gets is the trimmed name followed by \<open>" (k)"\<close>, where \<open>k\<close> is
  the first of 2, 3, ... whose name is free, so every smaller candidate from 2 on is
  taken.  Hence \<open>" (2)"\<close> when that name is free, and \<open>" (3)"\<close> for the next socket
  that joins with the same name when that one is free.  The name depends on the set of
  names on the roster only, not on their order.
\<close>

theorem join_name_collision:
  assumes "obj_get (students s) sid = None" and "trim nm \<noteq> []"
    and "trim nm \<in> set (roster_names s)"
  shows "(\<exists>k\<ge>2. joined_as (snd (join_student sid nm now s)) = Some (suffixed (trim nm) k)
            \<and> map_option name (obj_get (students (fst (join_student sid nm now s))) sid)
                = Some (suffixed (trim nm) k)
            \<and> map_option originalName (obj_get (students (fst (join_student sid nm now s))) sid)
                = Some (trim nm)
            \<and> suffixed (trim nm) k \<notin> set (roster_names s)
            \<and> (\<forall>j. 2 \<le> j \<and> j < k \<longrightarrow> suffixed (trim nm) j \<in> set (roster_names s)))
       \<and> suffixed (trim nm) 2 = trim nm @ '' (2)''
       \<and> suffixed (trim nm) 3 = trim nm @ '' (3)''
       \<and> (suffixed (trim nm) 2 \<notin> set (roster_names s) \<longrightarrow>
            joined_as (snd (join_student sid nm now s)) = Some (suffixed (trim nm) 2)
          \<and> (obj_get (students s) sid' = None \<and> sid' \<noteq> sid
              \<and> suffixed (trim nm) 3 \<notin> set (roster_names s) \<longrightarrow>
                joined_as (snd (join_student sid' nm now' (fst (join_student sid nm now s))))
                  = Some (suffixed (trim nm) 3)))
       \<and> (obj_get (students s2) sid2 = None \<and> set (roster_names s2) = set (roster_names s) \<longrightarrow>
            joined_as (snd (join_student sid2 nm now2 s2))
              = joined_as (snd (join_student sid nm now s)))"
proof -
  let ?t = "trim nm"
  let ?E = "roster_names s"
  let ?s1 = "fst (join_student sid nm now s)"
  note fresh = join_fresh_name [OF assms(1,2)]
  from uniqueName_loop_taken [OF assms(3), of 1 ?t] obtain k where k: "1 < k"
    "uniqueName_loop ?E ?t 1 ?t = suffixed ?t k" "suffixed ?t k \<notin> set ?E"
    "\<forall>j. 1 < j \<and> j < k \<longrightarrow> suffixed ?t j \<in> set ?E"
    by blast
  have general: "\<exists>k\<ge>2. joined_as (snd (join_student sid nm now s)) = Some (suffixed ?t k)
            \<and> map_option name (obj_get (students ?s1) sid) = Some (suffixed ?t k)
            \<and> map_option originalName (obj_get (students ?s1) sid) = Some ?t
            \<and> suffixed ?t k \<notin> set ?E
            \<and> (\<forall>j. 2 \<le> j \<and> j < k \<longrightarrow> suffixed ?t j \<in> set ?E)"
    using k fresh(1,2) by (intro exI [of _ k]) auto
  have two: "joined_as (snd (join_student sid nm now s)) = Some (suffixed ?t 2)"
    if free2: "suffixed ?t 2 \<notin> set ?E"
  proof -
    have "\<not> 2 < k" using k(4) free2 by auto
    with k(1) have "k = 2" by simp
    with k(2) fresh(1) show ?thesis by simp
  qed
  have three: "joined_as (snd (join_student sid' nm now' ?s1)) = Some (suffixed ?t 3)"
    if free2: "suffixed ?t 2 \<notin> set ?E"
      and other: "obj_get (students s) sid' = None \<and> sid' \<noteq> sid \<and> suffixed ?t 3 \<notin> set ?E"
  proof -
    have r1: "uniqueName_loop ?E ?t 1 ?t = suffixed ?t 2"
      using two [OF free2] fresh(1) by simp
    have names1: "roster_names ?s1 = ?E @ [suffixed ?t 2]"
      using fresh(3) r1 by simp
    have new1: "obj_get (students ?s1) sid' = None"
      using fresh(4) [of sid'] other by simp
    have taken1: "?t \<in> set (roster_names ?s1)" using assms(3) names1 by simp
    from uniqueName_loop_taken [OF taken1, of 1 ?t] obtain m where m: "1 < m"
      "uniqueName_loop (roster_names ?s1) ?t 1 ?t = suffixed ?t m"
      "suffixed ?t m \<notin> set (roster_names ?s1)"
      "\<forall>j. 1 < j \<and> j < m \<longrightarrow> suffixed ?t j \<in> set (roster_names ?s1)"
      by blast
    have "m \<noteq> 2" using m(3) names1 by auto
    moreover have "suffixed ?t 3 \<notin> set (roster_names ?s1)"
      using other names1 suffixed_inj [of ?t 3 2] by auto
    then have "\<not> 3 < m" using m(4) by auto
    ultimately have "m = 3" using m(1) by simp
    with m(2) join_fresh_name(1) [OF new1 assms(2), of now'] show ?thesis by simp
  qed
  have order: "joined_as (snd (join_student sid2 nm now2 s2))
              = joined_as (snd (join_student sid nm now s))"
    if "obj_get (students s2) sid2 = None \<and> set (roster_names s2) = set (roster_names s)"
    using that join_fresh_name(1) [of s2 sid2 nm now2] assms(2) fresh(1)
      uniqueName_loop_set [of "roster_names s2" ?E ?t 1 ?t]
    by simp
  from general two three order show ?thesis
    by (simp add: suffixed_2_3)
qed

theorem join_name_collision_witness:
  "obj_get (students session_sam) ''a'' = None \<and> trim ''Sam '' \<noteq> []
   \<and> trim ''Sam '' \<in> set (roster_names session_sam)
   \<and> joined_as (snd (join_student ''a'' ''Sam '' 1 session_sam)) = Some ''Sam (2)''
   \<and> joined_as (snd (join_student ''c'' ''Sam '' 2 (fst (join_student ''a'' ''Sam '' 1 session_sam))))
       = Some ''Sam (3)''"
proof -
  have h1: "obj_get (students session_sam) ''a'' = None" by code_simp
  have h2: "trim ''Sam '' \<noteq> []" by code_simp
  have h3: "trim ''Sam '' \<in> set (roster_names session_sam)" by code_simp
  have t: "trim ''Sam '' = ''Sam''" by code_simp
  have f2: "suffixed ''Sam'' 2 \<notin> set (roster_names session_sam)" by code_simp
  have f3: "suffixed ''Sam'' 3 \<notin> set (roster_names session_sam)" by code_simp
  have c: "obj_get (students session_sam) ''c'' = None" by code_simp
  from join_name_collision [OF h1 h2 h3, where now = 1 and sid' = "''c''" and now' = 2]
    h1 h2 h3 t f2 f3 c
  show ?thesis by simp
qed

text \<open>
  The second socket that asked for \<open>Sam\<close> is \<open>Sam (2)\<close>; it joins again as \<open>Bob\<close>.
  Its \<open>originalName\<close> is still \<open>Sam\<close>, and the name in \<open>join_success\<close> is \<open>Bob\<close>, not
  the name it had.
\<close>

theorem rejoin_counterexample:
  "map_option name (obj_get (students session_sam_twice) ''a'') = Some ''Sam (2)''
   \<and> map_option originalName (obj_get (students session_sam_twice) ''a'') = Some ''Sam''
   \<and> map_option originalName
        (obj_get (students (fst (join_student ''a'' ''Bob'' 2 session_sam_twice))) ''a'')
       = Some ''Sam''
   \<and> snd (join_student ''a'' ''Bob'' 2 session_sam_twice)
       = [(ToSocket ''a'', Join_success ''Bob'' ''Sam'' None), (ToAll, Student_count_update 2)]"
  by code_simp

text \<open>
  C7, as the code has it.  \<open>join_student\<close> on a socket that has a student already,
  with a name that is not empty when trimmed, updates that student in place: \<open>name\<close>
  becomes the trimmed name, \<open>answered\<close> becomes false, \<open>joinedAt\<close> the clock's
  reading; every other field, \<open>originalName\<close> among them, stays as it was, the keys of
  \<open>students\<close> and their order stay the same, and the roster is not searched for the new
  name.  The name returned in \<open>join_success\<close> is the new trimmed name.
\<close>

theorem rejoin_updates_in_place:
  assumes "obj_get (students s) sid = Some old" and "trim nm \<noteq> []"
  shows "fst (join_student sid nm now s)
           = s\<lparr>students := obj_set (students s) sid
                              (old\<lparr>name := trim nm, answered := False, joinedAt := now\<rparr>)\<rparr>
       \<and> obj_get (students (fst (join_student sid nm now s))) sid
           = Some (old\<lparr>name := trim nm, answered := False, joinedAt := now\<rparr>)
       \<and> obj_keys (students (fst (join_student sid nm now s))) = obj_keys (students s)
       \<and> joined_as (snd (join_student sid nm now s)) = Some (trim nm)
       \<and> hd (snd (join_student sid nm now s))
           = (ToSocket sid,
              Join_success (trim nm)
                (if originalName old \<noteq> [] then originalName old else trim nm) None)"
proof -
  from assms(2) have ne: "nm \<noteq> []" by auto
  show ?thesis
    using assms ne by (simp add: join_student_def Let_def obj_keys_set_present)
qed

theorem rejoin_updates_in_place_witness:
  "obj_get (students session_sam_twice) ''a''
     = Some \<lparr> name = ''Sam (2)'', originalName = ''Sam'', answered = False, joinedAt = 1,
              tabId = ''a'', answer = None, answeredAt = None \<rparr>
   \<and> trim '' Sam '' \<noteq> []
   \<and> obj_get (students (fst (join_student ''a'' '' Sam '' 2 session_sam_twice))) ''a''
       = Some \<lparr> name = ''Sam'', originalName = ''Sam'', answered = False, joinedAt = 2,
                tabId = ''a'', answer = None, answeredAt = None \<rparr>
   \<and> joined_as (snd (join_student ''a'' '' Sam '' 2 session_sam_twice)) = Some ''Sam''"
proof -
  have h1: "obj_get (students session_sam_twice) ''a''
     = Some \<lparr> name = ''Sam (2)'', originalName = ''Sam'', answered = False, joinedAt = 1,
              tabId = ''a'', answer = None, answeredAt = None \<rparr>"
    by code_simp
  have h2: "trim '' Sam '' \<noteq> []" by code_simp
  have t: "trim '' Sam '' = ''Sam''" by code_simp
  from rejoin_updates_in_place [OF h1 h2, of 2] h1 h2 t show ?thesis by simp
qed

text \<open>
  C8.  \<open>endPoll\<close> in the idle state (no current poll) does nothing: the store is the
  same, nothing is emitted, so no \<open>poll_ended\<close> goes out and nothing joins the history;
  the timer's callback is \<open>endPoll\<close>, and \<open>teacher_end_poll\<close> answers
  \<open>no_active_poll\<close> to the asking socket only.  After any \<open>endPoll\<close> the state is
  idle, so a second completion of the same poll, by the timer or by the teacher, changes
  nothing.
\<close>

theorem endPoll_idle_noop:
  assumes "currentPoll s = None"
  shows "endPoll now s = (s, [])
       \<and> step now In_poll_timeout s = Inr (s, [])
       \<and> teacher_end_poll sid now s = (s, [(ToSocket sid, No_active_poll_event)])
       \<and> currentPoll (fst (endPoll t0 s0)) = None
       \<and> endPoll t1 (fst (endPoll t0 s0)) = (fst (endPoll t0 s0), [])
       \<and> step t1 In_poll_timeout (fst (endPoll t0 s0)) = Inr (fst (endPoll t0 s0), [])
       \<and> teacher_end_poll sid t1 (fst (endPoll t0 s0))
           = (fst (endPoll t0 s0), [(ToSocket sid, No_active_poll_event)])"
proof -
  have idle: "endPoll n x = (x, [])" if "currentPoll x = None" for n x
    using that by (simp add: endPoll_def)
  have ask: "teacher_end_poll k n x = (x, [(ToSocket k, No_active_poll_event)])"
    if "currentPoll x = None" for k n x
    using that by (simp add: teacher_end_poll_def)
  have after: "currentPoll (fst (endPoll t0 s0)) = None" by simp
  show ?thesis
    using idle [OF assms] ask [OF assms] idle [OF after] ask [OF after] after by simp
qed

theorem endPoll_idle_noop_witness:
  "currentPoll session_completed = None
   \<and> endPoll 10 session_completed = (session_completed, [])
   \<and> step 10 In_poll_timeout session_completed = Inr (session_completed, [])
   \<and> teacher_end_poll ''t'' 10 session_completed
       = (session_completed, [(ToSocket ''t'', No_active_poll_event)])"
proof -
  have h: "currentPoll session_completed = None" by code_simp
  from endPoll_idle_noop [OF h, where now = 10 and sid = "''t''"] h show ?thesis by simp
qed

text \<open>
  C9.  A \<open>join-chat\<close> does not send the session's messages for every session
  identifier.  On a server that has just started, \<open>chatMessages.constructor\<close> and
  \<open>chatParticipants.constructor\<close> are the function every object inherits from
  \<open>Object.prototype\<close>, so for the session identifier \<open>constructor\<close> neither \<open>if\<close>
  creates an array and \<open>chatParticipants[sessionId].find\<close> throws a \<open>TypeError\<close>: no
  \<open>chat-history\<close> is emitted, no participant is stored, and the \<open>join_student\<close> that
  comes next is never handled.
\<close>

theorem join_chat_inherited_key_throws:
  "obj_lookup (chatMessages init_state) ''constructor'' = Inherited
   \<and> obj_lookup (chatParticipants init_state) ''constructor'' = Inherited
   \<and> join_chat ''a'' ''constructor'' ''Ann'' 0 init_state = Inl TypeError
   \<and> step 0 (In_join_chat ''a'' ''constructor'' ''Ann'') init_state = Inl TypeError
   \<and> run [(0, In_join_chat ''a'' ''constructor'' ''Ann''), (1, In_join_student ''b'' ''Bob'')]
        init_state = init_state"
  by code_simp

text \<open>
  The teacher starts a poll with the duration \<open>"0"\<close>, a string.  It is true, so it is
  kept; the timer is armed with 0 ms, and Ann's answer one millisecond after the start
  is refused as expired.
\<close>

theorem string_zero_duration_counterexample:
  "truthy (pd_duration pd_string_zero)
   \<and> to_number (pd_duration pd_string_zero) = Num 0
   \<and> map_option duration (currentPoll session_string_zero) = Some (JString ''0'' (Num 0))
   \<and> map_option startTime (currentPoll session_string_zero) = Some 5
   \<and> pollTimeout session_string_zero = Some (Num 0)
   \<and> submit_answer ''a'' ''Red'' 6 session_string_zero
       = (session_string_zero, [(ToSocket ''a'', Answer_error Poll_has_expired)])"
  by code_simp

text \<open>
  C10, as the code has it.  A start payload whose \<open>duration\<close> is falsy (missing,
  \<open>null\<close>, \<open>false\<close>, \<open>0\<close>, \<open>NaN\<close> or the empty string) gives exactly what the payload
  without the field gives; when the start succeeds the poll's duration is 60, the timer
  is armed with 60000 ms, the time remaining is counted from 60000 ms, and an answer is
  refused as expired exactly when more than 60000 ms have passed since the start.  The
  duration of a poll is the payload's when that is true and 60 otherwise, so it is never
  a falsy value, the number 0 among them; the timer is armed with 1000 times the number
  it converts to.
\<close>

theorem start_poll_default_duration:
  assumes "\<not> truthy (pd_duration pollData)" and "start_succeeds sid pollData now s"
  shows "teacher_start_poll sid pollData now s
           = teacher_start_poll sid (pollData\<lparr>pd_duration := JUndefined\<rparr>) now s
       \<and> (\<exists>p. currentPoll (fst (teacher_start_poll sid pollData now s)) = Some p
              \<and> duration p = JNumber (Num 60) \<and> startTime p = now
              \<and> pollTimeout (fst (teacher_start_poll sid pollData now s)) = Some (Num 60000)
              \<and> (\<forall>t. timeRemaining p t = Num (max 0 (now + 60000 - t)))
              \<and> (\<forall>k st ans t.
                    obj_get (students (fst (teacher_start_poll sid pollData now s))) k = Some st
                    \<and> ans \<in> set (options p) \<longrightarrow>
                      (submit_answer k ans t (fst (teacher_start_poll sid pollData now s))
                         = (fst (teacher_start_poll sid pollData now s),
                            [(ToSocket k, Answer_error Poll_has_expired)])
                       \<longleftrightarrow> t - now > 60000)))
       \<and> (start_succeeds sid' pollData' now' s' \<longrightarrow>
            (\<exists>p. currentPoll (fst (teacher_start_poll sid' pollData' now' s')) = Some p
               \<and> duration p = js_or (pd_duration pollData') (JNumber (Num 60))
               \<and> truthy (duration p) \<and> duration p \<noteq> JNumber (Num 0)
               \<and> pollTimeout (fst (teacher_start_poll sid' pollData' now' s'))
                   = Some (js_times (to_number (duration p)) (Num 1000))))"
proof -
  let ?s1 = "fst (teacher_start_poll sid pollData now s)"
  let ?p = "\<lparr> question = trim (case pd_question pollData of Some q \<Rightarrow> q | None \<Rightarrow> []),
                  options = map trim (case pd_options pollData of Some opts \<Rightarrow> opts | None \<Rightarrow> []),
                  duration = js_or (pd_duration pollData) (JNumber (Num 60)),
                  startTime = now, createdBy = ''teacher'' \<rparr>"
  have same: "teacher_start_poll sid pollData now s
           = teacher_start_poll sid (pollData\<lparr>pd_duration := JUndefined\<rparr>) now s"
    using start_ignores_falsy_duration [of "pd_duration pollData" JUndefined sid pollData now s] assms(1)
    by simp
  have cp: "currentPoll ?s1 = Some ?p" by (rule start_success_poll(1) [OF assms(2)])
  have d: "duration ?p = JNumber (Num 60)" using assms(1) by (simp add: js_or_def)
  have tm: "pollTimeout ?s1 = Some (Num 60000)"
    using start_success_poll(2) [OF assms(2)] assms(1) by (simp add: js_or_def)
  have tr: "timeRemaining ?p t = Num (max 0 (now + 60000 - t))" for t
    using assms(1) by (simp add: timeRemaining_def js_or_def)
  have ex: "(submit_answer k ans t ?s1 = (?s1, [(ToSocket k, Answer_error Poll_has_expired)])
             \<longleftrightarrow> t - now > 60000)"
    if g: "obj_get (students ?s1) k = Some st" and o: "ans \<in> set (options ?p)" for k st ans t
  proof -
    have "obj_get (reset_answered (reset_answered (students s))) k = Some st"
      using g start_success_poll(3) [OF assms(2)] by simp
    then have na: "\<not> answered st" by (auto simp: reset_answered_get)
    show ?thesis
      using cp g na o assms(1)
      by (auto simp add: submit_answer_def js_or_def Let_def)
  qed
  have part1: "\<exists>p. currentPoll ?s1 = Some p
              \<and> duration p = JNumber (Num 60) \<and> startTime p = now
              \<and> pollTimeout ?s1 = Some (Num 60000)
              \<and> (\<forall>t. timeRemaining p t = Num (max 0 (now + 60000 - t)))
              \<and> (\<forall>k st ans t.
                    obj_get (students ?s1) k = Some st
                    \<and> ans \<in> set (options p) \<longrightarrow>
                      (submit_answer k ans t ?s1
                         = (?s1, [(ToSocket k, Answer_error Poll_has_expired)])
                       \<longleftrightarrow> t - now > 60000))"
    apply (rule exI [of _ ?p])
    using cp d tm tr ex by auto
  have part2: "\<exists>p. currentPoll (fst (teacher_start_poll sid' pollData' now' s')) = Some p
               \<and> duration p = js_or (pd_duration pollData') (JNumber (Num 60))
               \<and> truthy (duration p) \<and> duration p \<noteq> JNumber (Num 0)
               \<and> pollTimeout (fst (teacher_start_poll sid' pollData' now' s'))
                   = Some (js_times (to_number (duration p)) (Num 1000))"
    if "start_succeeds sid' pollData' now' s'"
  proof -
    have "truthy (js_or (pd_duration pollData') (JNumber (Num 60)))" by (rule js_or_60_truthy)
    moreover from this have "js_or (pd_duration pollData') (JNumber (Num 60)) \<noteq> JNumber (Num 0)"
      by auto
    ultimately show ?thesis
      using start_success_poll(1,2) [OF that] by simp
  qed
  from same part1 part2 show ?thesis by blast
qed

theorem start_poll_default_duration_witness:
  "\<not> truthy (pd_duration pd_zero_duration)
   \<and> start_succeeds ''t'' pd_zero_duration 5 init_state
   \<and> map_option duration (currentPoll (fst (teacher_start_poll ''t'' pd_zero_duration 5 init_state)))
       = Some (JNumber (Num 60))
   \<and> pollTimeout (fst (teacher_start_poll ''t'' pd_zero_duration 5 init_state)) = Some (Num 60000)
   \<and> start_succeeds ''t'' pd_string_zero 5 init_state
   \<and> map_option duration (currentPoll (fst (teacher_start_poll ''t'' pd_string_zero 5 init_state)))
       = Some (JString ''0'' (Num 0))
   \<and> pollTimeout (fst (teacher_start_poll ''t'' pd_string_zero 5 init_state)) = Some (Num 0)"
proof -
  have h1: "\<not> truthy (pd_duration pd_zero_duration)" by code_simp
  have h2: "start_succeeds ''t'' pd_zero_duration 5 init_state" by code_simp
  have h3: "start_succeeds ''t'' pd_string_zero 5 init_state" by code_simp
  have e1: "js_or (pd_duration pd_string_zero) (JNumber (Num 60)) = JString ''0'' (Num 0)"
    by code_simp
  have e2: "js_times (to_number (JString ''0'' (Num 0))) (Num 1000) = Num 0" by code_simp
  note t = start_poll_default_duration [OF h1 h2, where sid' = "''t''"
      and pollData' = pd_string_zero and now' = 5 and s' = init_state]
  from t obtain p where
    "currentPoll (fst (teacher_start_poll ''t'' pd_zero_duration 5 init_state)) = Some p"
    "duration p = JNumber (Num 60)"
    "pollTimeout (fst (teacher_start_poll ''t'' pd_zero_duration 5 init_state)) = Some (Num 60000)"
    by blast
  then have a: "map_option duration
        (currentPoll (fst (teacher_start_poll ''t'' pd_zero_duration 5 init_state)))
       = Some (JNumber (Num 60))
     \<and> pollTimeout (fst (teacher_start_poll ''t'' pd_zero_duration 5 init_state))
       = Some (Num 60000)"
    by simp
  from t h3 obtain q where
    "currentPoll (fst (teacher_start_poll ''t'' pd_string_zero 5 init_state)) = Some q"
    "duration q = js_or (pd_duration pd_string_zero) (JNumber (Num 60))"
    "pollTimeout (fst (teacher_start_poll ''t'' pd_string_zero 5 init_state))
       = Some (js_times (to_number (duration q)) (Num 1000))"
    by blast
  then have b: "map_option duration
        (currentPoll (fst (teacher_start_poll ''t'' pd_string_zero 5 init_state)))
       = Some (JString ''0'' (Num 0))
     \<and> pollTimeout (fst (teacher_start_poll ''t'' pd_string_zero 5 init_state)) = Some (Num 0)"
    by (simp add: e1 e2)
  from h1 h2 h3 a b show ?thesis by blast
qed

end
